theory Spec2Isabelle
  imports Complex_Main "HOL-Library.Sublist"
begin

section \<open>Python strings and integers\<close>

text \<open>
  A Python \<^verbatim>\<open>str\<close> is modelled as a \<^typ>\<open>string\<close>; a character stands for the code point
  of the same number, so the model covers lines whose code points lie below 256.
  \<^verbatim>\<open>str.strip()\<close> removes the characters for which \<^verbatim>\<open>str.isspace()\<close> holds; below 256 these
  are 9..13, 28..32, 133 and 160.  \<^verbatim>\<open>int(s)\<close> skips a smaller set at both ends (9..13, 32,
  133, 160), then reads an optional sign and decimal digits that may be separated by single
  underscores.  CPython's cap on the number of digits of a literal (4300 by default since
  3.11) is not modelled.
\<close>

definition is_uspace :: "char \<Rightarrow> bool" where
  "is_uspace c =
     (let n = (of_char c :: nat)
      in (9 \<le> n \<and> n \<le> 13) \<or> (28 \<le> n \<and> n \<le> 32) \<or> n = 133 \<or> n = 160)"

definition is_int_space :: "char \<Rightarrow> bool" where
  "is_int_space c =
     (let n = (of_char c :: nat)
      in (9 \<le> n \<and> n \<le> 13) \<or> n = 32 \<or> n = 133 \<or> n = 160)"

definition is_digit :: "char \<Rightarrow> bool" where
  "is_digit c = (let n = (of_char c :: nat) in 48 \<le> n \<and> n \<le> 57)"

definition digit_val :: "char \<Rightarrow> nat" where
  "digit_val c = of_char c - 48"

definition strip :: "string \<Rightarrow> string" where
  "strip s = rev (dropWhile is_uspace (rev (dropWhile is_uspace s)))"

definition int_strip :: "string \<Rightarrow> string" where
  "int_strip s = rev (dropWhile is_int_space (rev (dropWhile is_int_space s)))"

text \<open>The digits of \<^verbatim>\<open>digit ("_"? digit)*\<close>, or \<open>None\<close> where the text is not of that shape.\<close>

fun body_digits :: "string \<Rightarrow> nat list option" where
  "body_digits [] = None"
| "body_digits [c] = (if is_digit c then Some [digit_val c] else None)"
| "body_digits (c # c' # cs) =
     (if is_digit c then
        (if c' = CHR ''_'' then map_option (Cons (digit_val c)) (body_digits cs)
         else map_option (Cons (digit_val c)) (body_digits (c' # cs)))
      else None)"

definition digits_value :: "string \<Rightarrow> nat option" where
  "digits_value s = map_option (foldl (\<lambda>a d. 10 * a + d) 0) (body_digits s)"

text \<open>\<^verbatim>\<open>int(s)\<close>: \<open>None\<close> stands for the \<^verbatim>\<open>ValueError\<close> it raises.\<close>

definition py_int :: "string \<Rightarrow> int option" where
  "py_int s =
     (case int_strip s of
        [] \<Rightarrow> None
      | c # cs \<Rightarrow>
          if c = CHR ''-'' then map_option (\<lambda>n. - int n) (digits_value cs)
          else if c = CHR ''+'' then map_option int (digits_value cs)
          else map_option int (digits_value (c # cs)))"

text \<open>\<^verbatim>\<open>str(n)\<close> for an integer.\<close>

definition digit_char :: "nat \<Rightarrow> char" where
  "digit_char d = char_of (48 + d)"

function show_nat :: "nat \<Rightarrow> string" where
  "show_nat n = (if n < 10 then [digit_char n] else show_nat (n div 10) @ [digit_char (n mod 10)])"
  by pat_completeness auto
termination
  by (relation "measure id") auto

declare show_nat.simps [simp del]

definition show_int :: "int \<Rightarrow> string" where
  "show_int i = (if i < 0 then CHR ''-'' # show_nat (nat (- i)) else show_nat (nat i))"

text \<open>\<^verbatim>\<open>sub in s\<close>.\<close>

fun contains :: "string \<Rightarrow> string \<Rightarrow> bool" where
  "contains sub [] = (sub = [])"
| "contains sub (c # cs) = (prefix sub (c # cs) \<or> contains sub cs)"

text \<open>
  The text before and after the first occurrence of a separator, \<open>None\<close> when it does not
  occur.  Every separator in the program is a non-empty literal (Python raises on an empty one).
\<close>

fun split_first :: "string \<Rightarrow> string \<Rightarrow> (string \<times> string) option" where
  "split_first sep [] = None"
| "split_first sep (c # cs) =
     (if prefix sep (c # cs) then Some ([], drop (length sep) (c # cs))
      else map_option (\<lambda>(a, b). (c # a, b)) (split_first sep cs))"

lemma split_first_shorter:
  "split_first sep s = Some (a, b) \<Longrightarrow> sep \<noteq> [] \<Longrightarrow> length b < length s"
proof (induction s arbitrary: a)
  case Nil
  then show ?case by simp
next
  case (Cons c cs)
  show ?case
  proof (cases "prefix sep (c # cs)")
    case True
    with Cons.prems show ?thesis by auto
  next
    case False
    with Cons.prems obtain a' where "split_first sep cs = Some (a', b)"
      by (auto split: prod.splits)
    with Cons.IH Cons.prems(2) show ?thesis by fastforce
  qed
qed

text \<open>\<^verbatim>\<open>s.split(sep, 1)\<close>: at most one split.\<close>

definition py_split1 :: "string \<Rightarrow> string \<Rightarrow> string list" where
  "py_split1 sep s = (case split_first sep s of None \<Rightarrow> [s] | Some (a, b) \<Rightarrow> [a, b])"

text \<open>\<^verbatim>\<open>s.split(sep)\<close> for a non-empty separator.\<close>

function py_split :: "string \<Rightarrow> string \<Rightarrow> string list" where
  "py_split sep s =
     (if sep = [] then [s]
      else case split_first sep s of None \<Rightarrow> [s] | Some (a, b) \<Rightarrow> a # py_split sep b)"
  by pat_completeness auto
termination
  by (relation "measure (\<lambda>(sep, s). length s)") (auto dest: split_first_shorter)

declare py_split.simps [simp del]

text \<open>\<^verbatim>\<open>s.replace(old, new)\<close> for a non-empty \<open>old\<close>: every occurrence, left to right.\<close>

function py_replace :: "string \<Rightarrow> string \<Rightarrow> string \<Rightarrow> string" where
  "py_replace old new s =
     (if old = [] then s
      else case split_first old s of None \<Rightarrow> s | Some (a, b) \<Rightarrow> a @ new @ py_replace old new b)"
  by pat_completeness auto
termination
  by (relation "measure (\<lambda>(old, new, s). length s)") (auto dest: split_first_shorter)

declare py_replace.simps [simp del]

text \<open>\<^verbatim>\<open>str.lower()\<close> on code points below 256: A..Z and 192..222 except 215.\<close>

definition lower_char :: "char \<Rightarrow> char" where
  "lower_char c =
     (let n = (of_char c :: nat)
      in if (65 \<le> n \<and> n \<le> 90) \<or> (192 \<le> n \<and> n \<le> 222 \<and> n \<noteq> 215) then char_of (n + 32) else c)"

definition lower :: "string \<Rightarrow> string" where
  "lower s = map lower_char s"

section \<open>Exceptions\<close>

text \<open>
  The exceptions the program's handlers tell apart.  The text of an exception is kept
  where a handler searches it.  \<^verbatim>\<open>serial.SerialException\<close> and
  \<^verbatim>\<open>requests.exceptions.RequestException\<close> are subclasses of \<^verbatim>\<open>OSError\<close>, and
  \<^verbatim>\<open>UnicodeDecodeError\<close> is one of \<^verbatim>\<open>ValueError\<close>.
\<close>

datatype py_exn =
    ValueError
  | IndexError
  | UnicodeDecodeError
  | SerialException string
  | OSError string
  | RequestException string
  | OtherException string

fun is_ValueError :: "py_exn \<Rightarrow> bool" where
  "is_ValueError ValueError = True"
| "is_ValueError UnicodeDecodeError = True"
| "is_ValueError _ = False"

fun is_SerialException :: "py_exn \<Rightarrow> bool" where
  "is_SerialException (SerialException _) = True"
| "is_SerialException _ = False"

fun is_RequestException :: "py_exn \<Rightarrow> bool" where
  "is_RequestException (RequestException _) = True"
| "is_RequestException _ = False"

fun is_OSError :: "py_exn \<Rightarrow> bool" where
  "is_OSError (SerialException _) = True"
| "is_OSError (OSError _) = True"
| "is_OSError (RequestException _) = True"
| "is_OSError _ = False"

text \<open>\<^verbatim>\<open>str(e)\<close>, as far as the handlers read it.\<close>

fun exn_text :: "py_exn \<Rightarrow> string" where
  "exn_text (SerialException t) = t"
| "exn_text (OSError t) = t"
| "exn_text (RequestException t) = t"
| "exn_text (OtherException t) = t"
| "exn_text _ = []"

text \<open>\<^verbatim>\<open>xs[i]\<close> for \<open>i \<ge> 0\<close>, with its \<^verbatim>\<open>IndexError\<close>.\<close>

definition py_index :: "'a list \<Rightarrow> nat \<Rightarrow> py_exn + 'a" where
  "py_index xs i = (if i < length xs then Inr (xs ! i) else Inl IndexError)"

text \<open>\<^verbatim>\<open>a, b = xs\<close>: unpacking raises \<^verbatim>\<open>ValueError\<close> unless there are exactly two items.\<close>

fun unpack2 :: "'a list \<Rightarrow> py_exn + ('a \<times> 'a)" where
  "unpack2 [a, b] = Inr (a, b)"
| "unpack2 _ = Inl ValueError"

section \<open>The monitor, its console and the outside world\<close>

text \<open>What the program prints, one constructor per \<^verbatim>\<open>print\<close> call, with the values it interpolates.\<close>

datatype upload_msg =
    TsUploadDisabled
  | TsSending int int int
  | TsSent string
  | TsViewAt
  | TsUpdateFailed
  | TsHttpError nat
  | TsConnectionError py_exn
  | TsError py_exn

datatype locator_msg =
    Scanning
  | Found string string
  | Testing string
  | PortBusy string
  | PortFailed string py_exn
  | PortError string py_exn

datatype connect_msg =
    NoPortsFound
  | AttemptTesting nat nat
  | NoWorkingPorts
  | RetryingIn nat
  | SelectedPort string
  | Connecting string
  | Connected string
  | PortIsBusy string nat nat
  | TipCloseIde
  | ConnectionFailed py_exn
  | UnexpectedError py_exn
  | LostReconnecting
  | Disconnected

datatype store_msg =
    Resuming int
  | UsingExistingCsv
  | NewCsvCreated
  | RecordingColumns
  | TsIntegrationEnabled
  | TsChannel
  | TsIntegrationDisabled
  | CsvInitError py_exn
  | CsvCriticalError py_exn
  | Saved int int int
  | TsFailedSavedLocally
  | SaveError py_exn

datatype parse_msg =
    PatientDetected int
  | HeartbeatReading int
  | BpmValue int
  | CouldNotParse string
  | ParseError py_exn

datatype worker_msg =
    ConnectionLost
  | AttemptReconnect nat nat
  | Reconnected
  | MaxReconnectReached
  | Received string
  | CouldNotDecode
  | ArduinoDisconnected
  | SerialReadError py_exn

datatype msg =
    Upload upload_msg
  | Locator locator_msg
  | Conn connect_msg
  | Store store_msg
  | Parse parse_msg
  | Worker worker_msg

text \<open>
  The effects on the outside world, in the order the program performs them: console
  output, \<^verbatim>\<open>time.sleep\<close>, the log file, the upload request and the serial ports.
\<close>

datatype event =
    Print msg
  | Sleep real
  | CsvWriteHeader
  | CsvAppend "string list"
  | HttpGet int int int string
  | PortScan
  | PortProbe string
  | PortOpen string
  | PortClose
  | ResetInputBuffer

record serial_port =
  is_open :: bool

text \<open>
  The fields of \<^verbatim>\<open>HealthMonitor\<close> that change, then the log file and the trace of effects.
  The file is held as the list of its rows as the \<^verbatim>\<open>csv\<close> module reads them, each a complete
  line (a file whose last line lacks its terminator is not represented), and is \<open>None\<close>
  while it does not exist.  The baud rate, the file name and the upload key are constants
  of the program.
\<close>

record monitor =
  port :: "string option"
  ser :: "serial_port option"
  running :: bool
  current_patient_number :: int
  last_bpm :: "int option"
  last_heartbeat :: "int option"
  connection_lost :: bool
  thingspeak_enabled :: bool
  csv_file :: "string list list option"
  out :: "event list"

definition emit :: "event \<Rightarrow> monitor \<Rightarrow> monitor" where
  "emit e s = s\<lparr>out := out s @ [e]\<rparr>"

definition say :: "msg \<Rightarrow> monitor \<Rightarrow> monitor" where
  "say m s = emit (Print m) s"

definition csv_header :: "string list" where
  "csv_header = [''Patient_Number'', ''Timestamp'', ''BPM'', ''Heartbeat_Reading'']"

section \<open>Record assembler: upload, flush and line handling\<close>

text \<open>
  What the outside world answers during one flush: the two readings of the clock
  (already formatted), whether appending to the log file raises, and what the upload
  request returns (status code and body) or raises.  An append that raises is taken to
  leave the file as it was; what a write that fails half-way leaves behind is not
  represented.
\<close>

record flush_env =
  clock_save :: string
  append_raises :: "py_exn option"
  clock_upload :: string
  http_result :: "py_exn + (nat \<times> string)"

definition send_to_thingspeak :: "flush_env \<Rightarrow> monitor \<Rightarrow> int \<Rightarrow> int \<Rightarrow> int \<Rightarrow> bool \<times> monitor" where
  "send_to_thingspeak env s patient_number bpm heartbeat_reading =
     (if \<not> thingspeak_enabled s then (False, say (Upload TsUploadDisabled) s)
      else
        let s1 = say (Upload (TsSending patient_number bpm heartbeat_reading)) s;
            s2 = emit (HttpGet patient_number bpm heartbeat_reading (clock_upload env)) s1
        in case http_result env of
             Inl e \<Rightarrow>
               if is_RequestException e then (False, say (Upload (TsConnectionError e)) s2)
               else (False, say (Upload (TsError e)) s2)
           | Inr (status_code, entry_id) \<Rightarrow>
               if status_code = 200 then
                 (if entry_id \<noteq> ''0''
                  then (True, say (Upload TsViewAt) (say (Upload (TsSent entry_id)) s2))
                  else (False, say (Upload TsUpdateFailed) s2))
               else (False, say (Upload (TsHttpError status_code)) s2))"

definition csv_row :: "int \<Rightarrow> string \<Rightarrow> int \<Rightarrow> int \<Rightarrow> string list" where
  "csv_row patient timestamp bpm heartbeat =
     [show_int patient, timestamp, show_int bpm, show_int heartbeat]"

text \<open>Opening a file for appending creates it when it does not exist.\<close>

definition append_row :: "string list \<Rightarrow> string list list option \<Rightarrow> string list list option" where
  "append_row row f = (case f of None \<Rightarrow> Some [row] | Some rows \<Rightarrow> Some (rows @ [row]))"

definition save_patient_data :: "flush_env \<Rightarrow> monitor \<Rightarrow> monitor" where
  "save_patient_data env s =
     (case (last_bpm s, last_heartbeat s) of
        (Some bpm, Some heartbeat) \<Rightarrow>
          (case append_raises env of
             Some e \<Rightarrow> say (Store (SaveError e)) s
           | None \<Rightarrow>
               let row = csv_row (current_patient_number s) (clock_save env) bpm heartbeat;
                   s1 = emit (CsvAppend row) (s\<lparr>csv_file := append_row row (csv_file s)\<rparr>);
                   s2 = say (Store (Saved (current_patient_number s) bpm heartbeat)) s1;
                   s3 = (if thingspeak_enabled s2 then
                           (let (thingspeak_success, t) =
                                  send_to_thingspeak env s2 (current_patient_number s2) bpm heartbeat
                            in if \<not> thingspeak_success then say (Store TsFailedSavedLocally) t else t)
                         else s2)
               in s3\<lparr>last_bpm := None, last_heartbeat := None\<rparr>)
      | _ \<Rightarrow> s)"

text \<open>\<^verbatim>\<open>data_value.split('Queue=')[1].split(',')[0]\<close>.\<close>

definition queue_part :: "string \<Rightarrow> py_exn + string" where
  "queue_part data_value =
     (case py_index (py_split ''Queue='' data_value) 1 of
        Inl e \<Rightarrow> Inl e
      | Inr after_queue \<Rightarrow> py_index (py_split '','' after_queue) 0)"

text \<open>
  The body of the \<^verbatim>\<open>try\<close> block of \<^verbatim>\<open>parse_data\<close>.  Every exception is raised before the
  monitor is changed, so the handler continues from the state the body started in.
\<close>

definition parse_body :: "flush_env \<Rightarrow> monitor \<Rightarrow> string \<Rightarrow> string \<Rightarrow> py_exn + monitor" where
  "parse_body env s data_type data_value =
     (if data_type = ''DETECT'' then
        (if contains ''Queue='' data_value then
           (case queue_part data_value of
              Inl e \<Rightarrow> Inl e
            | Inr queue_text \<Rightarrow>
                (case py_int (strip queue_text) of
                   None \<Rightarrow> Inl ValueError
                 | Some detected_patient \<Rightarrow>
                     let s1 = (if detected_patient \<le> current_patient_number s
                               then s\<lparr>current_patient_number := current_patient_number s + 1\<rparr>
                               else s\<lparr>current_patient_number := detected_patient\<rparr>)
                     in Inr (say (Parse (PatientDetected (current_patient_number s1))) s1)))
         else Inr s)
      else if data_type = ''HEARTBEAT'' then
        (if contains ''Reading='' data_value then
           (case py_int (strip (py_replace ''Reading='' [] data_value)) of
              None \<Rightarrow> Inl ValueError
            | Some n \<Rightarrow> Inr (say (Parse (HeartbeatReading n)) (s\<lparr>last_heartbeat := Some n\<rparr>)))
         else
           (case py_int (strip data_value) of
              None \<Rightarrow> Inl ValueError
            | Some n \<Rightarrow> Inr (say (Parse (HeartbeatReading n)) (s\<lparr>last_heartbeat := Some n\<rparr>))))
      else if data_type = ''BPM'' then
        (if contains ''Value='' data_value then
           (case py_int (strip (py_replace ''Value='' [] data_value)) of
              None \<Rightarrow> Inl ValueError
            | Some n \<Rightarrow>
                let s1 = say (Parse (BpmValue n)) (s\<lparr>last_bpm := Some n\<rparr>)
                in Inr (if last_heartbeat s1 \<noteq> None then save_patient_data env s1 else s1))
         else
           (case py_int (strip data_value) of
              None \<Rightarrow> Inl ValueError
            | Some n \<Rightarrow>
                let s1 = say (Parse (BpmValue n)) (s\<lparr>last_bpm := Some n\<rparr>)
                in Inr (if last_heartbeat s1 \<noteq> None then save_patient_data env s1 else s1)))
      else Inr s)"

text \<open>
  \<^verbatim>\<open>parse_data\<close>.  The result is \<open>Inl\<close> where an exception leaves the function: the
  unpacking of the split line stands outside the \<^verbatim>\<open>try\<close> block.
\<close>

definition parse_data :: "flush_env \<Rightarrow> monitor \<Rightarrow> string \<Rightarrow> py_exn + monitor" where
  "parse_data env s line =
     (if \<not> contains '':'' line then Inr s
      else
        case unpack2 (py_split1 '':'' line) of
          Inl e \<Rightarrow> Inl e
        | Inr (data_type, data_value) \<Rightarrow>
            (case parse_body env s data_type data_value of
               Inr s' \<Rightarrow> Inr s'
             | Inl e \<Rightarrow>
                 if is_ValueError e then Inr (say (Parse (CouldNotParse line)) s)
                 else Inr (say (Parse (ParseError e)) s)))"

section \<open>The log file at startup\<close>

text \<open>
  What the file system answers during \<^verbatim>\<open>initialize_csv\<close>: whether reading the existing
  file raises, whether creating the file raises, and whether creating it again in the
  handler raises.  A write that raises leaves the file as it was.
\<close>

record init_env =
  read_raises :: "py_exn option"
  create_raises :: "py_exn option"
  recreate_raises :: "py_exn option"

definition write_header :: "py_exn option \<Rightarrow> monitor \<Rightarrow> py_exn + monitor" where
  "write_header raises s =
     (case raises of
        Some e \<Rightarrow> Inl e
      | None \<Rightarrow> Inr (emit CsvWriteHeader (s\<lparr>csv_file := Some [csv_header]\<rparr>)))"

text \<open>
  The \<^verbatim>\<open>try\<close> block of \<^verbatim>\<open>initialize_csv\<close>.  Every exception is raised before the monitor
  is changed.
\<close>

definition initialize_body :: "init_env \<Rightarrow> monitor \<Rightarrow> py_exn + monitor" where
  "initialize_body env s =
     (case (case csv_file s of
              Some rows \<Rightarrow>
                (case read_raises env of
                   Some e \<Rightarrow> Inl e
                 | None \<Rightarrow>
                     if length rows > 1 then
                       (case py_index (last rows) 0 of
                          Inl e \<Rightarrow> Inl e
                        | Inr first_column \<Rightarrow>
                            (case py_int first_column of
                               None \<Rightarrow> Inl ValueError
                             | Some n \<Rightarrow>
                                 Inr (say (Store UsingExistingCsv)
                                       (say (Store (Resuming n)) (s\<lparr>current_patient_number := n\<rparr>)))))
                     else Inr (say (Store UsingExistingCsv) (s\<lparr>current_patient_number := 0\<rparr>)))
            | None \<Rightarrow>
                (case write_header (create_raises env) s of
                   Inl e \<Rightarrow> Inl e
                 | Inr s1 \<Rightarrow> Inr (say (Store NewCsvCreated) (s1\<lparr>current_patient_number := 0\<rparr>)))) of
        Inl e \<Rightarrow> Inl e
      | Inr s2 \<Rightarrow>
          let s3 = say (Store RecordingColumns) s2
          in Inr (if thingspeak_enabled s3
                  then say (Store TsChannel) (say (Store TsIntegrationEnabled) s3)
                  else say (Store TsIntegrationDisabled) s3))"

definition initialize_csv :: "init_env \<Rightarrow> monitor \<Rightarrow> monitor" where
  "initialize_csv env s =
     (case initialize_body env s of
        Inr s' \<Rightarrow> s'
      | Inl e \<Rightarrow>
          (let s1 = say (Store (CsvInitError e)) s
           in (case write_header (recreate_raises env) s1 of
                 Inl e2 \<Rightarrow> say (Store (CsvCriticalError e2)) s1
               | Inr s2 \<Rightarrow> say (Store NewCsvCreated) (s2\<lparr>current_patient_number := 0\<rparr>))))"

section \<open>Device locator\<close>

text \<open>
  \<^verbatim>\<open>list(dict.fromkeys(xs))\<close>: the items of \<open>xs\<close> in the order of their first occurrence,
  each once.
\<close>

fun fromkeys :: "'a list \<Rightarrow> 'a list" where
  "fromkeys [] = []"
| "fromkeys (x # xs) = x # filter (\<lambda>y. y \<noteq> x) (fromkeys xs)"

text \<open>A port of \<^verbatim>\<open>comports()\<close> is its device name and its description.\<close>

definition is_arduino :: "string \<times> string \<Rightarrow> bool" where
  "is_arduino p = list_ex (\<lambda>keyword. contains keyword (lower (fst p))) [''usbmodem'', ''usbserial'']"

definition arduino_ports :: "(string \<times> string) list \<Rightarrow> string list" where
  "arduino_ports comports = map fst (filter is_arduino comports)"

text \<open>What one matching name adds to \<^verbatim>\<open>all_ports_to_try\<close>.\<close>

definition port_variants :: "string \<Rightarrow> string list" where
  "port_variants name =
     (if contains ''cu.'' name then [name, py_replace ''cu.'' ''tty.'' name]
      else if contains ''tty.'' name then [name, py_replace ''tty.'' ''cu.'' name]
      else [name])"

definition all_ports_to_try :: "(string \<times> string) list \<Rightarrow> string list" where
  "all_ports_to_try comports = concat (map port_variants (arduino_ports comports))"

definition find_available_arduino_port ::
  "(string \<times> string) list \<Rightarrow> monitor \<Rightarrow> string list \<times> monitor" where
  "find_available_arduino_port comports s =
     (let s1 = emit PortScan (say (Locator Scanning) s);
          s2 = foldl (\<lambda>t p. say (Locator (Found (fst p) (snd p))) t) s1 (filter is_arduino comports)
      in (fromkeys (all_ports_to_try comports), s2))"

text \<open>
  \<^verbatim>\<open>test_port\<close>: the probe opens the port and closes it again; \<open>probing p\<close> is \<open>None\<close> when that
  works and the exception otherwise.
\<close>

definition test_port :: "(string \<Rightarrow> py_exn option) \<Rightarrow> string \<Rightarrow> monitor \<Rightarrow> bool \<times> monitor" where
  "test_port probing p s =
     (let s1 = emit (PortProbe p) (say (Locator (Testing p)) s)
      in case probing p of
           None \<Rightarrow> (True, s1)
         | Some e \<Rightarrow>
             if is_SerialException e then
               (if contains ''Resource busy'' (exn_text e) then (False, say (Locator (PortBusy p)) s1)
                else (False, say (Locator (PortFailed p e)) s1))
             else (False, say (Locator (PortError p e)) s1))"

text \<open>\<^verbatim>\<open>[p for p in available_ports if self.test_port(p)]\<close>.\<close>

fun test_ports :: "(string \<Rightarrow> py_exn option) \<Rightarrow> string list \<Rightarrow> monitor \<Rightarrow> string list \<times> monitor" where
  "test_ports probing [] s = ([], s)"
| "test_ports probing (p # ps) s =
     (let (ok, s1) = test_port probing p s;
          (rest, s2) = test_ports probing ps s1
      in (if ok then p # rest else rest, s2))"

section \<open>Connection manager\<close>

text \<open>
  What the outside world answers during one attempt of \<^verbatim>\<open>connect\<close>: the ports of the
  scan, the probe of each port, whether opening the chosen port raises, what
  \<^verbatim>\<open>in_waiting\<close> gives after the pause, and the file system for \<^verbatim>\<open>initialize_csv\<close>.
\<close>

record attempt_env =
  comports :: "(string \<times> string) list"
  probe_raises :: "string \<Rightarrow> py_exn option"
  open_raises :: "string \<Rightarrow> py_exn option"
  in_waiting :: "py_exn + nat"
  files :: init_env

definition max_retries :: nat where
  "max_retries = 3"

definition retry_delay :: nat where
  "retry_delay = 2"

text \<open>How an attempt ends: \<^verbatim>\<open>connect\<close> returns, or the loop goes on to the next attempt.\<close>

datatype outcome = Return bool monitor | Next monitor

text \<open>\<^verbatim>\<open>not self.port\<close>: \<^verbatim>\<open>None\<close> and the empty string are false.\<close>

definition no_port :: "monitor \<Rightarrow> bool" where
  "no_port s = (case port s of None \<Rightarrow> True | Some p \<Rightarrow> p = [])"

text \<open>The two \<^verbatim>\<open>except\<close> clauses of \<^verbatim>\<open>connect\<close>, from the state in which the exception is raised.\<close>

definition connect_handler :: "nat \<Rightarrow> string \<Rightarrow> py_exn \<Rightarrow> monitor \<Rightarrow> outcome" where
  "connect_handler attempt p e s =
     (if is_SerialException e then
        (if contains ''Resource busy'' (exn_text e) then
           (let s1 = say (Conn (PortIsBusy p (attempt + 1) max_retries)) s;
                s2 = (if attempt < max_retries - 1
                      then emit (Sleep (real retry_delay))
                             (say (Conn (RetryingIn retry_delay)) (say (Conn TipCloseIde) s1))
                      else s1)
            in Next (s2\<lparr>port := None\<rparr>))
         else Return False (say (Conn (ConnectionFailed e)) s))
      else Return False (say (Conn (UnexpectedError e)) s))"

text \<open>The part of the \<^verbatim>\<open>try\<close> block from \<^verbatim>\<open>Connecting to ...\<close> on, for the port \<open>p\<close> held in \<^verbatim>\<open>self.port\<close>.\<close>

definition open_port :: "attempt_env \<Rightarrow> nat \<Rightarrow> string \<Rightarrow> monitor \<Rightarrow> outcome" where
  "open_port env attempt p s =
     (let s1 = emit (PortOpen p) (say (Conn (Connecting p)) s)
      in case open_raises env p of
           Some e \<Rightarrow> connect_handler attempt p e s1
         | None \<Rightarrow>
             (let s2 = emit (Sleep 2) (say (Conn (Connected p)) (s1\<lparr>ser := Some \<lparr>is_open = True\<rparr>\<rparr>))
              in (case in_waiting env of
                    Inl e \<Rightarrow> connect_handler attempt p e s2
                  | Inr n \<Rightarrow>
                      (let s3 = (if n \<noteq> 0 then emit ResetInputBuffer s2 else s2);
                           s4 = initialize_csv (files env) s3
                       in Return True (s4\<lparr>connection_lost := False\<rparr>)))))"

definition connect_attempt :: "attempt_env \<Rightarrow> nat \<Rightarrow> monitor \<Rightarrow> outcome" where
  "connect_attempt env attempt s =
     (if no_port s then
        (let (available_ports, s1) = find_available_arduino_port (comports env) s
         in if available_ports = [] then Return False (say (Conn NoPortsFound) s1)
            else
              let s2 = say (Conn (AttemptTesting (attempt + 1) max_retries)) s1;
                  (working_ports, s3) = test_ports (probe_raises env) available_ports s2
              in if working_ports = [] then
                   (let s4 = say (Conn NoWorkingPorts) s3
                    in Next (if attempt < max_retries - 1
                             then emit (Sleep (real retry_delay)) (say (Conn (RetryingIn retry_delay)) s4)
                             else s4))
                 else
                   (let s4 = say (Conn (SelectedPort (hd working_ports)))
                               (s3\<lparr>port := Some (hd working_ports)\<rparr>)
                    in open_port env attempt (hd working_ports) s4))
      else open_port env attempt (the (port s)) s)"

text \<open>\<^verbatim>\<open>for attempt in range(max_retries)\<close>, with the \<^verbatim>\<open>return False\<close> after the loop.\<close>

fun connect_for :: "(nat \<Rightarrow> attempt_env) \<Rightarrow> nat list \<Rightarrow> monitor \<Rightarrow> bool \<times> monitor" where
  "connect_for envs [] s = (False, s)"
| "connect_for envs (attempt # rest) s =
     (case connect_attempt (envs attempt) attempt s of
        Return b s' \<Rightarrow> (b, s')
      | Next s' \<Rightarrow> connect_for envs rest s')"

definition connect :: "(nat \<Rightarrow> attempt_env) \<Rightarrow> monitor \<Rightarrow> bool \<times> monitor" where
  "connect envs s = connect_for envs [0..<max_retries] s"

text \<open>
  \<^verbatim>\<open>disconnect\<close>; \<open>close_raises\<close> tells whether closing the port raises (the exception is
  swallowed and the port left as it is).
\<close>

definition disconnect :: "bool \<Rightarrow> monitor \<Rightarrow> monitor" where
  "disconnect close_raises s =
     (let s1 = s\<lparr>running := False\<rparr>
      in case ser s1 of
           None \<Rightarrow> s1
         | Some h \<Rightarrow>
             if is_open h then
               (let s2 = emit PortClose s1
                in if close_raises then s2
                   else say (Conn Disconnected) (s2\<lparr>ser := Some (h\<lparr>is_open := False\<rparr>)\<rparr>))
             else s1)"

definition reconnect :: "bool \<Rightarrow> (nat \<Rightarrow> attempt_env) \<Rightarrow> monitor \<Rightarrow> bool \<times> monitor" where
  "reconnect close_raises envs s =
     connect envs (emit (Sleep 2) (disconnect close_raises (say (Conn LostReconnecting) s)))"

text \<open>
  \<^verbatim>\<open>check_connection\<close>, given what \<^verbatim>\<open>in_waiting\<close> answers.  An exception that is no
  \<^verbatim>\<open>OSError\<close> leaves the function.
\<close>

definition check_connection :: "py_exn + nat \<Rightarrow> monitor \<Rightarrow> py_exn + bool \<times> monitor" where
  "check_connection waiting s =
     (case ser s of
        None \<Rightarrow> Inr (False, s)
      | Some h \<Rightarrow>
          if is_open h then
            (case waiting of
               Inr n \<Rightarrow> Inr (True, s)
             | Inl e \<Rightarrow> if is_OSError e then Inr (False, s\<lparr>connection_lost := True\<rparr>) else Inl e)
          else Inr (False, s))"

section \<open>The supervised read loop\<close>

text \<open>
  What the outside world answers during one pass of the loop of \<^verbatim>\<open>serial_worker\<close>:
  \<^verbatim>\<open>in_waiting\<close> for the health check, the closing of the port and the attempts of a
  reconnect, \<^verbatim>\<open>in_waiting\<close> for the read, the line read and decoded (or the exception of
  either step), and the answers for a flush.
\<close>

record tick_env =
  health_waiting :: "py_exn + nat"
  close_raises :: bool
  attempts :: "nat \<Rightarrow> attempt_env"
  read_waiting :: "py_exn + nat"
  read_line :: "py_exn + string"
  flush :: flush_env

definition max_reconnect_attempts :: nat where
  "max_reconnect_attempts = 5"

text \<open>Whether the pass ends with \<^verbatim>\<open>continue\<close> (skipping the pause of 0.1) or runs to its end.\<close>

datatype flow = Continue | Fallthrough

text \<open>
  The \<^verbatim>\<open>try\<close> block of the loop body.  An exception is returned with the monitor and the
  local counter \<^verbatim>\<open>reconnect_attempts\<close> as they are when it is raised.
\<close>

definition worker_try ::
  "tick_env \<Rightarrow> monitor \<times> nat \<Rightarrow> (py_exn \<times> monitor \<times> nat) + (flow \<times> monitor \<times> nat)" where
  "worker_try env st =
     (let (s, reconnect_attempts) = st
      in case check_connection (health_waiting env) s of
           Inl e \<Rightarrow> Inl (e, s, reconnect_attempts)
         | Inr (ok, s1) \<Rightarrow>
             if \<not> ok then
               (let s2 = (if \<not> connection_lost s1
                          then (say (Worker ConnectionLost) s1)\<lparr>connection_lost := True\<rparr>
                          else s1)
                in if reconnect_attempts < max_reconnect_attempts then
                     (let s3 = say (Worker (AttemptReconnect (reconnect_attempts + 1) max_reconnect_attempts)) s2;
                          (reconnected, s4) = reconnect (close_raises env) (attempts env) s3
                      in if reconnected
                         then Inr (Continue, (say (Worker Reconnected) s4)\<lparr>connection_lost := False\<rparr>, 0)
                         else Inr (Continue, emit (Sleep 2) s4, reconnect_attempts + 1))
                   else Inr (Continue, emit (Sleep 5) (say (Worker MaxReconnectReached) s2),
                             reconnect_attempts))
             else
               (case read_waiting env of
                  Inl e \<Rightarrow> Inl (e, s1, 0)
                | Inr n \<Rightarrow>
                    if n \<noteq> 0 then
                      (case read_line env of
                         Inl e \<Rightarrow> Inl (e, s1, 0)
                       | Inr raw \<Rightarrow>
                           let line = strip raw
                           in if line \<noteq> [] then
                                (let s2 = say (Worker (Received line)) s1
                                 in case parse_data (flush env) s2 line of
                                      Inl e \<Rightarrow> Inl (e, s2, 0)
                                    | Inr s3 \<Rightarrow> Inr (Fallthrough, s3, 0))
                              else Inr (Fallthrough, s1, 0))
                    else Inr (Fallthrough, s1, 0)))"

text \<open>One pass of the loop body: the \<^verbatim>\<open>try\<close> block, its handlers and the pause.\<close>

definition worker_pass :: "tick_env \<Rightarrow> monitor \<times> nat \<Rightarrow> monitor \<times> nat" where
  "worker_pass env st =
     (case worker_try env st of
        Inr (Continue, s, n) \<Rightarrow> (s, n)
      | Inr (Fallthrough, s, n) \<Rightarrow> (emit (Sleep 0.1) s, n)
      | Inl (e, s, n) \<Rightarrow>
          if e = UnicodeDecodeError then (emit (Sleep 0.1) (say (Worker CouldNotDecode) s), n)
          else if contains ''Device not configured'' (exn_text e)
                  \<or> contains ''disconnected'' (lower (exn_text e))
          then (emit (Sleep 0.1) (say (Worker ArduinoDisconnected) (s\<lparr>connection_lost := True\<rparr>)), n)
          else (emit (Sleep 0.1) (say (Worker (SerialReadError e)) s), n))"

text \<open>
  \<^verbatim>\<open>while self.running:\<close> over the passes \<open>k\<close>, \<open>k + 1\<close>, ...; the result is the monitor,
  the counter and the number of the pass at which the loop ends, and \<open>None\<close> when it never
  does.
\<close>

partial_function (option) serial_worker ::
  "(nat \<Rightarrow> tick_env) \<Rightarrow> nat \<Rightarrow> monitor \<times> nat \<Rightarrow> (monitor \<times> nat \<times> nat) option" where
  "serial_worker envs k st =
     (if running (fst st) then serial_worker envs (Suc k) (worker_pass (envs k) st)
      else Some (fst st, snd st, k))"

text \<open>\<^verbatim>\<open>monitor_serial\<close> sets the flag and starts the loop with the counter at 0.\<close>

definition monitor_serial :: "(nat \<Rightarrow> tick_env) \<Rightarrow> monitor \<Rightarrow> (monitor \<times> nat \<times> nat) option" where
  "monitor_serial envs s = serial_worker envs 0 (s\<lparr>running := True\<rparr>, 0)"

section \<open>Notions used in the properties\<close>

text \<open>
  The text that \<^verbatim>\<open>parse_data\<close> hands to \<^verbatim>\<open>int\<close> for a HEARTBEAT and for a BPM value, the
  patient id of a DETECT line and the heart rate of a BPM line (\<open>None\<close> for every other
  line).  They name the lines the properties below speak about.
\<close>

definition heartbeat_text :: "string \<Rightarrow> string" where
  "heartbeat_text data_value =
     (if contains ''Reading='' data_value then strip (py_replace ''Reading='' [] data_value)
      else strip data_value)"

definition bpm_text :: "string \<Rightarrow> string" where
  "bpm_text data_value =
     (if contains ''Value='' data_value then strip (py_replace ''Value='' [] data_value)
      else strip data_value)"

definition detect_queue :: "string \<Rightarrow> int option" where
  "detect_queue line =
     (case split_first '':'' line of
        None \<Rightarrow> None
      | Some (data_type, data_value) \<Rightarrow>
          if data_type = ''DETECT'' \<and> contains ''Queue='' data_value then
            (case queue_part data_value of Inl e \<Rightarrow> None | Inr q \<Rightarrow> py_int (strip q))
          else None)"

definition bpm_value :: "string \<Rightarrow> int option" where
  "bpm_value line =
     (case split_first '':'' line of
        None \<Rightarrow> None
      | Some (data_type, data_value) \<Rightarrow>
          if data_type = ''BPM'' then py_int (bpm_text data_value) else None)"

text \<open>Handling the lines of a sequence in order, each with the answers of the world at its time.\<close>

fun handle_lines :: "monitor \<Rightarrow> (flush_env \<times> string) list \<Rightarrow> py_exn + monitor" where
  "handle_lines s [] = Inr s"
| "handle_lines s ((env, line) # rest) =
     (case parse_data env s line of Inl e \<Rightarrow> Inl e | Inr s' \<Rightarrow> handle_lines s' rest)"

text \<open>Whether the upload request is answered with status 200 and a body other than \<open>0\<close>.\<close>

definition upload_ok :: "flush_env \<Rightarrow> bool" where
  "upload_ok env =
     (case http_result env of
        Inl e \<Rightarrow> False
      | Inr (status_code, entry_id) \<Rightarrow> status_code = 200 \<and> entry_id \<noteq> ''0'')"

text \<open>The log file after the records of a list have been appended to it, one flush each.\<close>

definition append_records :: "(int \<times> string \<times> int \<times> int) list \<Rightarrow> string list list option \<Rightarrow> string list list option" where
  "append_records recs f = foldl (\<lambda>f (p, t, b, h). append_row (csv_row p t b h) f) f recs"

text \<open>
  The events by which the attempts of \<^verbatim>\<open>connect\<close> are counted and timed: a scan of the
  ports, the opening of the chosen port, and a pause.
\<close>

fun tracked :: "event \<Rightarrow> bool" where
  "tracked PortScan = True"
| "tracked (PortOpen p) = True"
| "tracked (Sleep d) = True"
| "tracked _ = False"

fun is_port_open :: "event \<Rightarrow> bool" where
  "is_port_open (PortOpen p) = True"
| "is_port_open _ = False"

definition timeline :: "monitor \<Rightarrow> event list" where
  "timeline s = filter tracked (out s)"

text \<open>The monitor in which an attempt ends.\<close>

fun state_of :: "outcome \<Rightarrow> monitor" where
  "state_of (Return b s) = s"
| "state_of (Next s) = s"

text \<open>The candidates of an attempt, as \<^verbatim>\<open>find_available_arduino_port\<close> returns them.\<close>

definition candidates :: "attempt_env \<Rightarrow> string list" where
  "candidates env = fromkeys (all_ports_to_try (comports env))"

text \<open>Whether an exception is a \<^verbatim>\<open>SerialException\<close> whose text holds \<open>Resource busy\<close>.\<close>

definition is_busy :: "py_exn \<Rightarrow> bool" where
  "is_busy e = (is_SerialException e \<and> contains ''Resource busy'' (exn_text e))"

section \<open>Values for examples\<close>

text \<open>\<^verbatim>\<open>HealthMonitor.__init__\<close>, beside a given state of the log file.\<close>

definition new_monitor :: "string option \<Rightarrow> string list list option \<Rightarrow> monitor" where
  "new_monitor p f =
     \<lparr>port = p, ser = None, running = False, current_patient_number = 0,
      last_bpm = None, last_heartbeat = None, connection_lost = False,
      thingspeak_enabled = True, csv_file = f, out = []\<rparr>"

text \<open>A flush during which the file can be written and the upload is accepted.\<close>

definition calm_env :: flush_env where
  "calm_env =
     \<lparr>clock_save = ''2024-05-01 10:00:00'', append_raises = None,
      clock_upload = ''2024-05-01 10:00:01'', http_result = Inr (200, ''17'')\<rparr>"

text \<open>A flush during which the log file cannot be written.\<close>

definition disk_full_env :: flush_env where
  "disk_full_env = calm_env\<lparr>append_raises := Some (OSError ''No space left on device'')\<rparr>"

text \<open>A flush during which the upload is answered with status 200 and the body \<open>0\<close>.\<close>

definition rejecting_env :: flush_env where
  "rejecting_env = calm_env\<lparr>http_result := Inr (200, ''0'')\<rparr>"

text \<open>Patient 1 with both values pending, and with the raw reading only.\<close>

definition pending_monitor :: monitor where
  "pending_monitor =
     (new_monitor None (Some [csv_header]))
       \<lparr>current_patient_number := 1, last_bpm := Some 72, last_heartbeat := Some 512\<rparr>"

definition reading_monitor :: monitor where
  "reading_monitor =
     (new_monitor None (Some [csv_header]))\<lparr>current_patient_number := 1, last_heartbeat := Some 512\<rparr>"

definition patient5_monitor :: monitor where
  "patient5_monitor = (new_monitor None (Some [csv_header]))\<lparr>current_patient_number := 5\<rparr>"

text \<open>A file system that raises nothing.\<close>

definition quiet_fs :: init_env where
  "quiet_fs = \<lparr>read_raises = None, create_raises = None, recreate_raises = None\<rparr>"

text \<open>A scan that lists one board under both of its names, and a port that is no board.\<close>

definition mac_ports :: "(string \<times> string) list" where
  "mac_ports =
     [(''/dev/cu.usbmodem14101'', ''Arduino Uno''),
      (''/dev/cu.Bluetooth-Incoming-Port'', ''n/a''),
      (''/dev/tty.usbmodem14101'', ''Arduino Uno'')]"

text \<open>
  An attempt during which the one board is found and every port is busy, for the probe
  and for the opening alike.
\<close>

definition busy_env :: attempt_env where
  "busy_env =
     \<lparr>comports = [(''/dev/cu.usbmodem14101'', ''Arduino Uno'')],
      probe_raises = (\<lambda>p. Some (SerialException ''[Errno 16] Resource busy'')),
      open_raises = (\<lambda>p. Some (SerialException ''[Errno 16] Resource busy'')),
      in_waiting = Inr 0,
      files = quiet_fs\<rparr>"

text \<open>
  An attempt during which the board is found and passes the probe, and opening the port
  then fails as busy.
\<close>

definition open_busy_env :: attempt_env where
  "open_busy_env =
     \<lparr>comports = [(''/dev/cu.usbmodem14101'', ''Arduino Uno'')],
      probe_raises = (\<lambda>p. None),
      open_raises = (\<lambda>p. Some (SerialException ''[Errno 16] Resource busy'')),
      in_waiting = Inr 0,
      files = quiet_fs\<rparr>"

text \<open>An attempt during which the board is found and every port opens.\<close>

definition free_env :: attempt_env where
  "free_env =
     \<lparr>comports = [(''/dev/cu.usbmodem14101'', ''Arduino Uno'')],
      probe_raises = (\<lambda>p. None),
      open_raises = (\<lambda>p. None),
      in_waiting = Inr 0,
      files = quiet_fs\<rparr>"

text \<open>
  A pass during which the health check finds the device gone, and the port then closes
  and opens again without error.
\<close>

definition unplugged_tick :: tick_env where
  "unplugged_tick =
     \<lparr>health_waiting = Inl (OSError ''[Errno 6] Device not configured''),
      close_raises = False,
      attempts = (\<lambda>a. free_env),
      read_waiting = Inr 0,
      read_line = Inr [],
      flush = calm_env\<rparr>"

text \<open>The monitor after a successful \<^verbatim>\<open>connect\<close> to a pinned port.\<close>

definition connected_monitor :: monitor where
  "connected_monitor =
     (new_monitor (Some ''/dev/cu.usbmodem14101'') (Some [csv_header]))
       \<lparr>ser := Some \<lparr>is_open = True\<rparr>\<rparr>"

section \<open>Facts about the record assembler\<close>

lemma emit_fields [simp]:
  "port (emit e s) = port s" "ser (emit e s) = ser s" "running (emit e s) = running s"
  "current_patient_number (emit e s) = current_patient_number s"
  "last_bpm (emit e s) = last_bpm s" "last_heartbeat (emit e s) = last_heartbeat s"
  "connection_lost (emit e s) = connection_lost s"
  "thingspeak_enabled (emit e s) = thingspeak_enabled s"
  "csv_file (emit e s) = csv_file s" "out (emit e s) = out s @ [e]"
  by (simp_all add: emit_def)

lemma say_fields [simp]:
  "port (say m s) = port s" "ser (say m s) = ser s" "running (say m s) = running s"
  "current_patient_number (say m s) = current_patient_number s"
  "last_bpm (say m s) = last_bpm s" "last_heartbeat (say m s) = last_heartbeat s"
  "connection_lost (say m s) = connection_lost s"
  "thingspeak_enabled (say m s) = thingspeak_enabled s"
  "csv_file (say m s) = csv_file s" "out (say m s) = out s @ [Print m]"
  by (simp_all add: say_def)

lemma contains_split_first:
  "sep \<noteq> [] \<Longrightarrow> contains sep s = (split_first sep s \<noteq> None)"
  by (induction s) auto

lemma unpack2_split1: "contains '':'' line \<Longrightarrow> \<exists>k v. split_first '':'' line = Some (k, v) \<and> unpack2 (py_split1 '':'' line) = Inr (k, v)"
  by (auto simp: contains_split_first py_split1_def)

lemma parse_data_split:
  assumes "split_first '':'' line = Some (k, v)"
  shows "parse_data env s line =
     (case parse_body env s k v of
        Inr s' \<Rightarrow> Inr s'
      | Inl e \<Rightarrow> if is_ValueError e then Inr (say (Parse (CouldNotParse line)) s)
                 else Inr (say (Parse (ParseError e)) s))"
  using assms by (simp add: parse_data_def contains_split_first py_split1_def)

lemma parse_data_no_colon: "\<not> contains '':'' line \<Longrightarrow> parse_data env s line = Inr s"
  by (simp add: parse_data_def)

lemma parse_data_total: "\<exists>s'. parse_data env s line = Inr s'"
proof (cases "contains '':'' line")
  case False
  then show ?thesis by (simp add: parse_data_no_colon)
next
  case True
  then obtain k v where "split_first '':'' line = Some (k, v)"
    using unpack2_split1 by blast
  then show ?thesis
    by (auto simp: parse_data_split split: sum.splits)
qed

lemma py_split_nonempty: "py_split sep s \<noteq> []"
  by (subst py_split.simps) (auto split: option.splits)

lemma py_split_contains: "sep \<noteq> [] \<Longrightarrow> contains sep s \<Longrightarrow> 2 \<le> length (py_split sep s)"
  using py_split_nonempty[of sep]
  by (subst py_split.simps) (auto simp: contains_split_first Suc_le_eq split: option.splits)

lemma queue_part_ok: "contains ''Queue='' v \<Longrightarrow> \<exists>q. queue_part v = Inr q"
  using py_split_contains[of "''Queue=''" v] py_split_nonempty[of "'',''"]
  by (auto simp: queue_part_def py_index_def)

lemma split_detect: "split_first '':'' (''DETECT:'' @ v) = Some (''DETECT'', v)"
  by simp
lemma split_heartbeat: "split_first '':'' (''HEARTBEAT:'' @ v) = Some (''HEARTBEAT'', v)"
  by simp
lemma split_bpm: "split_first '':'' (''BPM:'' @ v) = Some (''BPM'', v)"
  by simp

lemma split_first_key:
  "split_first '':'' line = Some (k, v) \<Longrightarrow> line = k @ '':'' @ v"
  by (induction line arbitrary: k) (auto split: if_splits prod.splits)

lemma send_frame:
  "port (snd (send_to_thingspeak env s p b h)) = port s"
  "ser (snd (send_to_thingspeak env s p b h)) = ser s"
  "running (snd (send_to_thingspeak env s p b h)) = running s"
  "current_patient_number (snd (send_to_thingspeak env s p b h)) = current_patient_number s"
  "last_bpm (snd (send_to_thingspeak env s p b h)) = last_bpm s"
  "last_heartbeat (snd (send_to_thingspeak env s p b h)) = last_heartbeat s"
  "connection_lost (snd (send_to_thingspeak env s p b h)) = connection_lost s"
  "thingspeak_enabled (snd (send_to_thingspeak env s p b h)) = thingspeak_enabled s"
  "csv_file (snd (send_to_thingspeak env s p b h)) = csv_file s"
  by (simp_all add: send_to_thingspeak_def Let_def split: sum.splits prod.splits)

lemma send_result:
  "thingspeak_enabled s \<Longrightarrow> fst (send_to_thingspeak env s p b h) = upload_ok env"
  by (simp add: send_to_thingspeak_def upload_ok_def Let_def split: sum.splits prod.splits)

lemma send_out:
  "thingspeak_enabled s \<Longrightarrow>
     \<exists>post. out (snd (send_to_thingspeak env s p b h)) =
       out s @ [Print (Upload (TsSending p b h)), HttpGet p b h (clock_upload env)] @ post"
  by (simp add: send_to_thingspeak_def Let_def split: sum.splits prod.splits)

lemma save_incomplete:
  "last_bpm s = None \<or> last_heartbeat s = None \<Longrightarrow> save_patient_data env s = s"
  by (auto simp: save_patient_data_def split: option.splits)

lemma save_store_failure:
  "last_bpm s = Some b \<Longrightarrow> last_heartbeat s = Some h \<Longrightarrow> append_raises env = Some e \<Longrightarrow>
     save_patient_data env s = say (Store (SaveError e)) s"
  by (simp add: save_patient_data_def)

lemma save_store_ok:
  assumes "last_bpm s = Some b" "last_heartbeat s = Some h" "append_raises env = None"
  shows "csv_file (save_patient_data env s) =
           append_row (csv_row (current_patient_number s) (clock_save env) b h) (csv_file s)"
    and "last_bpm (save_patient_data env s) = None"
    and "last_heartbeat (save_patient_data env s) = None"
    and "current_patient_number (save_patient_data env s) = current_patient_number s"
  using assms
  by (simp_all add: save_patient_data_def Let_def send_frame case_prod_beta)

lemma save_counter:
  "current_patient_number (save_patient_data env s) = current_patient_number s"
  by (cases "last_bpm s"; cases "last_heartbeat s"; cases "append_raises env")
     (simp_all add: save_incomplete save_store_failure save_store_ok)

lemma save_store_ok_out:
  assumes "last_bpm s = Some b" "last_heartbeat s = Some h" "append_raises env = None"
  shows "\<exists>post. out (save_patient_data env s) =
           out s @ [CsvAppend (csv_row (current_patient_number s) (clock_save env) b h),
                    Print (Store (Saved (current_patient_number s) b h))] @ post
         \<and> (if thingspeak_enabled s then
               take 2 post = [Print (Upload (TsSending (current_patient_number s) b h)),
                              HttpGet (current_patient_number s) b h (clock_upload env)]
               \<and> (if upload_ok env then last post \<noteq> Print (Store TsFailedSavedLocally)
                   else last post = Print (Store TsFailedSavedLocally))
             else post = [])"
proof (cases "thingspeak_enabled s")
  case False
  with assms show ?thesis
    by (simp add: save_patient_data_def Let_def)
next
  case True
  let ?c = "current_patient_number s"
  let ?s2 = "say (Store (Saved ?c b h))
              (emit (CsvAppend (csv_row ?c (clock_save env) b h))
                (s\<lparr>csv_file := append_row (csv_row ?c (clock_save env) b h) (csv_file s)\<rparr>))"
  have en: "thingspeak_enabled ?s2" using True by simp
  obtain ok t where snd: "send_to_thingspeak env ?s2 ?c b h = (ok, t)"
    by (cases "send_to_thingspeak env ?s2 ?c b h")
  have ok: "ok = upload_ok env"
    using send_result[OF en, of env ?c b h] snd by simp
  from send_out[OF en, of env ?c b h] snd obtain post where
    t: "out t = out ?s2 @ [Print (Upload (TsSending ?c b h)), HttpGet ?c b h (clock_upload env)] @ post"
    by auto
  have lastpost: "upload_ok env \<Longrightarrow> last (out t) \<noteq> Print (Store TsFailedSavedLocally)"
    using snd by (auto simp: send_to_thingspeak_def upload_ok_def Let_def en split: sum.splits prod.splits if_splits)
  have res: "out (save_patient_data env s) = (if ok then out t else out t @ [Print (Store TsFailedSavedLocally)])"
    using assms True snd by (simp add: save_patient_data_def Let_def)
  show ?thesis
  proof (cases "upload_ok env")
    case True
    with res ok t lastpost \<open>thingspeak_enabled s\<close> show ?thesis
      by (intro exI[of _ "[Print (Upload (TsSending ?c b h)), HttpGet ?c b h (clock_upload env)] @ post"]) auto
  next
    case False
    with res ok t \<open>thingspeak_enabled s\<close> show ?thesis
      by (intro exI[of _ "[Print (Upload (TsSending ?c b h)), HttpGet ?c b h (clock_upload env)] @ post @ [Print (Store TsFailedSavedLocally)]"]) auto
  qed
qed

lemma parse_body_detect:
  assumes "contains ''Queue='' v"
  shows "parse_body env s ''DETECT'' v =
     (case queue_part v of
        Inl e \<Rightarrow> Inl e
      | Inr q \<Rightarrow>
         (case py_int (strip q) of
            None \<Rightarrow> Inl ValueError
          | Some n \<Rightarrow>
              Inr (say (Parse (PatientDetected
                        (if n \<le> current_patient_number s then current_patient_number s + 1 else n)))
                    (s\<lparr>current_patient_number :=
                         (if n \<le> current_patient_number s then current_patient_number s + 1 else n)\<rparr>))))"
  using assms by (simp add: parse_body_def Let_def split: sum.splits option.splits)

lemma parse_body_detect_other:
  "\<not> contains ''Queue='' v \<Longrightarrow> parse_body env s ''DETECT'' v = Inr s"
  by (simp add: parse_body_def)

lemma parse_body_heartbeat:
  "parse_body env s ''HEARTBEAT'' v =
     (case py_int (heartbeat_text v) of
        None \<Rightarrow> Inl ValueError
      | Some n \<Rightarrow> Inr (say (Parse (HeartbeatReading n)) (s\<lparr>last_heartbeat := Some n\<rparr>)))"
  by (simp add: parse_body_def heartbeat_text_def)

lemma parse_body_bpm:
  "parse_body env s ''BPM'' v =
     (case py_int (bpm_text v) of
        None \<Rightarrow> Inl ValueError
      | Some n \<Rightarrow>
          Inr (if last_heartbeat s \<noteq> None
               then save_patient_data env (say (Parse (BpmValue n)) (s\<lparr>last_bpm := Some n\<rparr>))
               else say (Parse (BpmValue n)) (s\<lparr>last_bpm := Some n\<rparr>)))"
  by (simp add: parse_body_def bpm_text_def Let_def split: option.splits)

lemma parse_body_unknown:
  "k \<noteq> ''DETECT'' \<Longrightarrow> k \<noteq> ''HEARTBEAT'' \<Longrightarrow> k \<noteq> ''BPM'' \<Longrightarrow> parse_body env s k v = Inr s"
  by (simp add: parse_body_def)

lemma parse_data_detect:
  assumes "contains ''Queue='' v" "queue_part v = Inr q" "py_int (strip q) = Some n"
  shows "parse_data env s (''DETECT:'' @ v) =
     Inr (say (Parse (PatientDetected
                (if n \<le> current_patient_number s then current_patient_number s + 1 else n)))
            (s\<lparr>current_patient_number :=
                 (if n \<le> current_patient_number s then current_patient_number s + 1 else n)\<rparr>))"
  using assms by (subst parse_data_split[OF split_detect]) (simp add: parse_body_detect)

lemma parse_data_counter:
  assumes "parse_data env s line = Inr s'"
  shows "current_patient_number s' =
     (case detect_queue line of
        None \<Rightarrow> current_patient_number s
      | Some n \<Rightarrow> if n \<le> current_patient_number s then current_patient_number s + 1 else n)"
proof (cases "split_first '':'' line")
  case None
  then have "\<not> contains '':'' line" by (simp add: contains_split_first)
  with assms None show ?thesis by (simp add: parse_data_no_colon detect_queue_def)
next
  case (Some kv)
  obtain k v where kv: "kv = (k, v)" by (cases kv)
  note sp = Some[unfolded kv]
  consider (d) "k = ''DETECT''" "contains ''Queue='' v" | (d') "k = ''DETECT''" "\<not> contains ''Queue='' v"
    | (h) "k = ''HEARTBEAT''" | (b) "k = ''BPM''"
    | (u) "k \<noteq> ''DETECT''" "k \<noteq> ''HEARTBEAT''" "k \<noteq> ''BPM''" by blast
  then show ?thesis
  proof cases
    case d
    with assms sp show ?thesis
      by (auto simp: parse_data_split[OF sp] parse_body_detect detect_queue_def
               split: sum.splits option.splits if_splits)
  next
    case d'
    with assms sp show ?thesis
      by (auto simp: parse_data_split[OF sp] parse_body_detect_other detect_queue_def)
  next
    case h
    with assms sp show ?thesis
      by (auto simp: parse_data_split[OF sp] parse_body_heartbeat detect_queue_def
               split: option.splits)
  next
    case b
    with assms sp show ?thesis
      by (auto simp: parse_data_split[OF sp] parse_body_bpm detect_queue_def save_counter
               split: option.splits if_splits)
  next
    case u
    with assms sp show ?thesis
      by (auto simp: parse_data_split[OF sp] parse_body_unknown detect_queue_def)
  qed
qed

lemma append_row_changes: "append_row row f \<noteq> f"
  by (cases f) (simp_all add: append_row_def)

lemma parse_data_heartbeat:
  "parse_data env s (''HEARTBEAT:'' @ v) =
     (case py_int (heartbeat_text v) of
        None \<Rightarrow> Inr (say (Parse (CouldNotParse (''HEARTBEAT:'' @ v))) s)
      | Some n \<Rightarrow> Inr (say (Parse (HeartbeatReading n)) (s\<lparr>last_heartbeat := Some n\<rparr>)))"
  by (subst parse_data_split[OF split_heartbeat]) (simp add: parse_body_heartbeat split: option.splits)

lemma parse_data_bpm:
  "parse_data env s (''BPM:'' @ v) =
     (case py_int (bpm_text v) of
        None \<Rightarrow> Inr (say (Parse (CouldNotParse (''BPM:'' @ v))) s)
      | Some n \<Rightarrow>
          Inr (if last_heartbeat s \<noteq> None
               then save_patient_data env (say (Parse (BpmValue n)) (s\<lparr>last_bpm := Some n\<rparr>))
               else say (Parse (BpmValue n)) (s\<lparr>last_bpm := Some n\<rparr>)))"
  by (subst parse_data_split[OF split_bpm]) (simp add: parse_body_bpm split: option.splits)

lemma say_as_update: "say m s = s\<lparr>out := out s @ [Print m]\<rparr>"
  by (simp add: say_def emit_def)

lemma bpm_value_bpm: "bpm_value (''BPM:'' @ v) = py_int (bpm_text v)"
  unfolding bpm_value_def by (subst split_bpm) simp

lemma bpm_value_heartbeat: "bpm_value (''HEARTBEAT:'' @ v) = None"
  unfolding bpm_value_def by (subst split_heartbeat) simp

lemma detect_queue_heartbeat: "detect_queue (''HEARTBEAT:'' @ v) = None"
  unfolding detect_queue_def by (subst split_heartbeat) simp

lemma detect_queue_bpm: "detect_queue (''BPM:'' @ v) = None"
  unfolding detect_queue_def by (subst split_bpm) simp

lemma detect_queue_no_colon: "\<not> contains '':'' line \<Longrightarrow> detect_queue line = None"
  by (cases "split_first '':'' line") (simp_all add: detect_queue_def contains_split_first)

lemma parse_data_file:
  assumes "parse_data env s line = Inr s'"
  shows "(case (bpm_value line, last_heartbeat s, append_raises env) of
            (Some b, Some h, None) \<Rightarrow>
              csv_file s' = append_row (csv_row (current_patient_number s) (clock_save env) b h) (csv_file s)
              \<and> last_bpm s' = None \<and> last_heartbeat s' = None
          | _ \<Rightarrow> csv_file s' = csv_file s)"
proof (cases "split_first '':'' line")
  case None
  then have "\<not> contains '':'' line" by (simp add: contains_split_first)
  with assms None show ?thesis
    by (simp add: parse_data_no_colon bpm_value_def)
next
  case (Some kv)
  obtain k v where kv: "kv = (k, v)" by (cases kv)
  note sp = Some[unfolded kv]
  consider (d) "k = ''DETECT''" "contains ''Queue='' v" | (d') "k = ''DETECT''" "\<not> contains ''Queue='' v"
    | (h) "k = ''HEARTBEAT''" | (b) "k = ''BPM''"
    | (u) "k \<noteq> ''DETECT''" "k \<noteq> ''HEARTBEAT''" "k \<noteq> ''BPM''" by blast
  then show ?thesis
  proof cases
    case d
    with assms sp show ?thesis
      by (auto simp: parse_data_split[OF sp] parse_body_detect bpm_value_def
               split: sum.splits option.splits if_splits)
  next
    case d'
    with assms sp show ?thesis
      by (auto simp: parse_data_split[OF sp] parse_body_detect_other bpm_value_def)
  next
    case h
    with assms sp show ?thesis
      by (auto simp: parse_data_split[OF sp] parse_body_heartbeat bpm_value_def
               split: option.splits)
  next
    case u
    with assms sp show ?thesis
      by (auto simp: parse_data_split[OF sp] parse_body_unknown bpm_value_def)
  next
    case b
    have bv: "bpm_value line = py_int (bpm_text v)"
      using sp b by (simp add: bpm_value_def)
    show ?thesis
    proof (cases "py_int (bpm_text v)")
      case None
      with assms sp b bv show ?thesis
        by (auto simp: parse_data_split[OF sp] parse_body_bpm)
    next
      case (Some n)
      let ?s1 = "say (Parse (BpmValue n)) (s\<lparr>last_bpm := Some n\<rparr>)"
      show ?thesis
      proof (cases "last_heartbeat s")
        case None
        with assms sp b bv Some show ?thesis
          by (auto simp: parse_data_split[OF sp] parse_body_bpm)
      next
        case hb: (Some h)
        have s': "s' = save_patient_data env ?s1"
          using assms sp b Some hb by (auto simp: parse_data_split[OF sp] parse_body_bpm)
        have p: "last_bpm ?s1 = Some n" "last_heartbeat ?s1 = Some h" using hb by simp_all
        show ?thesis
        proof (cases "append_raises env")
          case None
          from save_store_ok[OF p None] bv Some hb None s' show ?thesis by simp
        next
          case (Some e)
          from save_store_failure[OF p Some] bv \<open>py_int (bpm_text v) = Some n\<close> hb Some s'
          show ?thesis by simp
        qed
      qed
    qed
  qed
qed

section \<open>Properties of the record assembler\<close>

lemma example_texts:
  "queue_part ''Queue=3'' = Inr ''3''" "py_int (strip ''3'') = Some 3"
  "queue_part ''Queue=9,x'' = Inr ''9''" "py_int (strip ''9'') = Some 9"
  "detect_queue ''DETECT:Queue=3'' = Some 3"
  "detect_queue ''HEARTBEAT:512'' = None"
  "py_int (heartbeat_text ''Reading=512'') = Some 512"
  "py_int (heartbeat_text ''512'') = Some 512"
  "py_int (heartbeat_text ''fast'') = None"
  "py_int (bpm_text ''Value=72'') = Some 72"
  "py_int (bpm_text ''72'') = Some 72"
  "py_int (bpm_text ''7x'') = None"
  "bpm_value ''BPM:Value=72'' = Some 72"
  "show_int 1 = ''1''" "show_int 72 = ''72''" "show_int 512 = ''512''"
  by code_simp+

text \<open>
  C1.  A DETECT line is a line \<open>DETECT:v\<close>.  When \<open>v\<close> contains \<open>Queue=\<close> and the text
  after it, up to the next comma, reads as the integer \<open>n\<close>, handling the line returns
  normally and the patient counter becomes \<open>counter + 1\<close> if \<open>n \<le> counter\<close>, and \<open>n\<close>
  otherwise.
\<close>

theorem detect_sets_counter:
  assumes "contains ''Queue='' v" and "queue_part v = Inr q" and "py_int (strip q) = Some n"
  shows "\<exists>s'. parse_data env s (''DETECT:'' @ v) = Inr s' \<and>
           current_patient_number s' =
             (if n \<le> current_patient_number s then current_patient_number s + 1 else n)"
  using parse_data_detect[OF assms, of env s] by simp

text \<open>From counter 5, \<open>Queue=3\<close> gives 6 and \<open>Queue=9\<close> gives 9.\<close>

theorem detect_sets_counter_witness:
  "(\<exists>s'. parse_data calm_env patient5_monitor ''DETECT:Queue=3'' = Inr s' \<and>
          current_patient_number s' = 6) \<and>
   (\<exists>s'. parse_data calm_env patient5_monitor ''DETECT:Queue=9,x'' = Inr s' \<and>
          current_patient_number s' = 9)"
proof -
  have c3: "contains ''Queue='' ''Queue=3''" and c9: "contains ''Queue='' ''Queue=9,x''"
    by simp_all
  have five: "current_patient_number patient5_monitor = 5"
    by (simp add: patient5_monitor_def new_monitor_def)
  from detect_sets_counter[OF c3 example_texts(1) example_texts(2), of calm_env patient5_monitor]
       detect_sets_counter[OF c9 example_texts(3) example_texts(4), of calm_env patient5_monitor]
  show ?thesis by (simp add: five)
qed

text \<open>
  C10.  Handling a line never lowers the patient counter: a DETECT line whose \<open>Queue=\<close>
  field reads as an integer raises it by at least one, and every other line (HEARTBEAT,
  BPM, a line without a colon, a line whose value does not parse) leaves it as it was.
\<close>

theorem counter_never_decreases:
  "(\<exists>s'. parse_data env s line = Inr s' \<and>
          current_patient_number s \<le> current_patient_number s' \<and>
          (detect_queue line \<noteq> None \<longrightarrow> current_patient_number s + 1 \<le> current_patient_number s') \<and>
          (detect_queue line = None \<longrightarrow> current_patient_number s' = current_patient_number s)) \<and>
   detect_queue (''HEARTBEAT:'' @ v) = None \<and>
   detect_queue (''BPM:'' @ v) = None \<and>
   (\<not> contains '':'' line \<longrightarrow> detect_queue line = None)"
proof -
  obtain s' where s': "parse_data env s line = Inr s'"
    using parse_data_total by blast
  from parse_data_counter[OF s'] s' detect_queue_heartbeat[of v] detect_queue_bpm[of v]
  show ?thesis
    by (auto simp: detect_queue_no_colon split: option.splits if_splits)
qed

theorem counter_never_decreases_witness:
  "detect_queue ''DETECT:Queue=3'' \<noteq> None \<and>
   (\<exists>s'. parse_data calm_env patient5_monitor ''DETECT:Queue=3'' = Inr s' \<and>
          6 \<le> current_patient_number s') \<and>
   detect_queue ''HEARTBEAT:512'' = None \<and>
   (\<exists>s'. parse_data calm_env patient5_monitor ''HEARTBEAT:512'' = Inr s' \<and>
          current_patient_number s' = 5)"
proof -
  have five: "current_patient_number patient5_monitor = 5"
    by (simp add: patient5_monitor_def new_monitor_def)
  from counter_never_decreases[of calm_env patient5_monitor "''DETECT:Queue=3''"]
       counter_never_decreases[of calm_env patient5_monitor "''HEARTBEAT:512''"]
  show ?thesis by (auto simp: five example_texts)
qed

text \<open>
  C5, as the claim states it, fails: a line without a colon is dropped without any
  warning.  Handling \<open>hello\<close> prints nothing.
\<close>

theorem silent_drop_counterexample:
  "\<not> (\<exists>s'. parse_data calm_env (new_monitor None None) ''hello'' = Inr s' \<and>
            Print (Parse (CouldNotParse ''hello'')) \<in> set (out s'))"
  by (simp add: parse_data_def new_monitor_def)

text \<open>
  C5, amended.  Handling a malformed line returns normally and changes neither the pending
  fields, nor the counter, nor the log file.  A line without a colon changes nothing at all
  (no warning is printed); a HEARTBEAT or BPM line whose value does not read as an integer
  adds the parse warning to the console and nothing else.
\<close>

theorem malformed_line_dropped:
  "(\<not> contains '':'' line \<longrightarrow> parse_data env s line = Inr s) \<and>
   (py_int (heartbeat_text v) = None \<longrightarrow>
      parse_data env s (''HEARTBEAT:'' @ v) =
        Inr (s\<lparr>out := out s @ [Print (Parse (CouldNotParse (''HEARTBEAT:'' @ v)))]\<rparr>)) \<and>
   (py_int (bpm_text v) = None \<longrightarrow>
      parse_data env s (''BPM:'' @ v) =
        Inr (s\<lparr>out := out s @ [Print (Parse (CouldNotParse (''BPM:'' @ v)))]\<rparr>))"
  by (simp add: parse_data_no_colon parse_data_heartbeat parse_data_bpm say_as_update
           del: append.simps)

theorem malformed_line_dropped_witness:
  "\<not> contains '':'' ''hello'' \<and>
   parse_data disk_full_env pending_monitor ''hello'' = Inr pending_monitor \<and>
   py_int (heartbeat_text ''fast'') = None \<and>
   parse_data disk_full_env pending_monitor ''HEARTBEAT:fast'' =
     Inr (pending_monitor\<lparr>out := [Print (Parse (CouldNotParse ''HEARTBEAT:fast''))]\<rparr>) \<and>
   py_int (bpm_text ''7x'') = None \<and>
   parse_data disk_full_env pending_monitor ''BPM:7x'' =
     Inr (pending_monitor\<lparr>out := [Print (Parse (CouldNotParse ''BPM:7x''))]\<rparr>)"
proof -
  have nc: "\<not> contains '':'' ''hello''" by simp
  have o: "out pending_monitor = []" by (simp add: pending_monitor_def new_monitor_def)
  from malformed_line_dropped[of "''hello''" disk_full_env pending_monitor "''fast''"]
       malformed_line_dropped[of "''hello''" disk_full_env pending_monitor "''7x''"]
  show ?thesis by (simp add: nc o example_texts)
qed

lemma example_rows:
  "csv_row 1 ''2024-05-01 10:00:00'' 72 512 = [''1'', ''2024-05-01 10:00:00'', ''72'', ''512'']"
  by (simp add: csv_row_def example_texts)

text \<open>
  C2, as the claim states it, fails: after the lines \<open>BPM:72\<close> and \<open>HEARTBEAT:512\<close> both
  fields are populated, yet no record has been flushed (the log file holds the header
  only and nothing but the two readings was reported).
\<close>

theorem heartbeat_last_counterexample:
  "\<exists>s'. handle_lines (new_monitor None (Some [csv_header]))
            [(calm_env, ''BPM:72''), (calm_env, ''HEARTBEAT:512'')] = Inr s' \<and>
        last_bpm s' = Some 72 \<and> last_heartbeat s' = Some 512 \<and>
        csv_file s' = Some [csv_header] \<and>
        out s' = [Print (Parse (BpmValue 72)), Print (Parse (HeartbeatReading 512))]"
proof -
  let ?s0 = "new_monitor None (Some [csv_header])"
  let ?s1 = "say (Parse (BpmValue 72)) (?s0\<lparr>last_bpm := Some 72\<rparr>)"
  let ?s2 = "say (Parse (HeartbeatReading 512)) (?s1\<lparr>last_heartbeat := Some 512\<rparr>)"
  have f0: "last_heartbeat ?s0 = None"
    by (simp add: new_monitor_def)
  have b: "parse_data calm_env ?s0 ''BPM:72'' = Inr ?s1"
    using parse_data_bpm[of calm_env ?s0 "''72''"] by (simp add: example_texts f0)
  have h: "parse_data calm_env ?s1 ''HEARTBEAT:512'' = Inr ?s2"
    using parse_data_heartbeat[of calm_env ?s1 "''512''"] by (simp add: example_texts)
  have run: "handle_lines ?s0 [(calm_env, ''BPM:72''), (calm_env, ''HEARTBEAT:512'')] = Inr ?s2"
    by (simp add: b h)
  have "last_bpm ?s2 = Some 72 \<and> last_heartbeat ?s2 = Some 512 \<and>
        csv_file ?s2 = Some [csv_header] \<and>
        out ?s2 = [Print (Parse (BpmValue 72)), Print (Parse (HeartbeatReading 512))]"
    by (simp add: new_monitor_def)
  with run show ?thesis by blast
qed

text \<open>
  C2, amended.  Handling a line appends a record to the log file exactly when the line is
  a BPM line whose value reads as an integer, the raw-sensor reading is populated at that
  moment and the append does not fail; the record then holds the counter, the time, the
  new heart rate and the pending reading, and both fields are empty afterwards.  No other
  line changes the file: a HEARTBEAT line never flushes, even when it makes both fields
  populated.
\<close>

theorem flush_exactly_on_bpm:
  "(\<exists>s'. parse_data env s line = Inr s' \<and>
      (csv_file s' \<noteq> csv_file s) =
        (bpm_value line \<noteq> None \<and> last_heartbeat s \<noteq> None \<and> append_raises env = None) \<and>
      (case (bpm_value line, last_heartbeat s, append_raises env) of
         (Some b, Some h, None) \<Rightarrow>
           csv_file s' =
             append_row (csv_row (current_patient_number s) (clock_save env) b h) (csv_file s) \<and>
           last_bpm s' = None \<and> last_heartbeat s' = None
       | _ \<Rightarrow> csv_file s' = csv_file s)) \<and>
   bpm_value (''HEARTBEAT:'' @ v) = None"
proof -
  obtain s' where s': "parse_data env s line = Inr s'"
    using parse_data_total by blast
  from parse_data_file[OF s'] s' bpm_value_heartbeat[of v] show ?thesis
    by (auto simp: append_row_changes split: option.splits)
qed

text \<open>
  The lines \<open>HEARTBEAT:Reading=512\<close> and \<open>BPM:Value=72\<close> for patient 1: the first changes
  no file, the second appends the record and clears both fields.
\<close>

theorem flush_exactly_on_bpm_witness:
  "(\<exists>s'. parse_data calm_env reading_monitor ''BPM:Value=72'' = Inr s' \<and>
          csv_file s' = Some [csv_header, [''1'', ''2024-05-01 10:00:00'', ''72'', ''512'']] \<and>
          last_bpm s' = None \<and> last_heartbeat s' = None) \<and>
   (\<exists>s'. parse_data calm_env pending_monitor ''HEARTBEAT:Reading=512'' = Inr s' \<and>
          csv_file s' = Some [csv_header])"
proof -
  have r: "last_heartbeat reading_monitor = Some 512" "current_patient_number reading_monitor = 1"
    "csv_file reading_monitor = Some [csv_header]" "csv_file pending_monitor = Some [csv_header]"
    by (simp_all add: reading_monitor_def pending_monitor_def new_monitor_def)
  have e: "append_raises calm_env = None" "clock_save calm_env = ''2024-05-01 10:00:00''"
    by (simp_all add: calm_env_def)
  from flush_exactly_on_bpm[of calm_env reading_monitor "''BPM:Value=72''" "''Reading=512''"]
       flush_exactly_on_bpm[of calm_env pending_monitor "''HEARTBEAT:Reading=512''" "''Reading=512''"]
  show ?thesis
    by (auto simp: r e example_texts example_rows append_row_def)
qed

text \<open>
  C3, as the claim states it, fails: when the append to the log file raises, the pending
  fields are not cleared.
\<close>

theorem store_failure_counterexample:
  "\<not> (last_bpm (save_patient_data disk_full_env pending_monitor) = None \<and>
      last_heartbeat (save_patient_data disk_full_env pending_monitor) = None)"
  by (simp add: save_patient_data_def disk_full_env_def pending_monitor_def new_monitor_def)

text \<open>
  C3, amended.  When both fields are populated and the append to the log file raises,
  \<^verbatim>\<open>save_patient_data\<close> reports the error and returns, and the pending state is not
  cleared: both fields keep their values.  So a BPM line that arrives while the reading
  is pending and whose flush fails in this way is handled without an exception leaving
  \<^verbatim>\<open>parse_data\<close>; afterwards the new heart rate and the reading are both still pending
  and the error is the last thing reported.
\<close>

theorem store_failure_keeps_pending:
  assumes "append_raises env = Some e"
  shows "(last_bpm s = Some b \<longrightarrow> last_heartbeat s = Some h \<longrightarrow>
            last_bpm (save_patient_data env s) = Some b \<and>
            last_heartbeat (save_patient_data env s) = Some h \<and>
            last (out (save_patient_data env s)) = Print (Store (SaveError e))) \<and>
         (py_int (bpm_text v) = Some n \<longrightarrow> last_heartbeat s = Some h \<longrightarrow>
            (\<exists>s'. parse_data env s (''BPM:'' @ v) = Inr s' \<and>
                  last_bpm s' = Some n \<and> last_heartbeat s' = Some h \<and>
                  last (out s') = Print (Store (SaveError e))))"
proof (intro conjI impI)
  assume p: "last_bpm s = Some b" "last_heartbeat s = Some h"
  from save_store_failure[OF p assms]
  show "last_bpm (save_patient_data env s) = Some b"
    and "last_heartbeat (save_patient_data env s) = Some h"
    and "last (out (save_patient_data env s)) = Print (Store (SaveError e))"
    using p by simp_all
next
  assume v: "py_int (bpm_text v) = Some n" and h: "last_heartbeat s = Some h"
  let ?s1 = "say (Parse (BpmValue n)) (s\<lparr>last_bpm := Some n\<rparr>)"
  have p: "last_bpm ?s1 = Some n" "last_heartbeat ?s1 = Some h"
    using h by simp_all
  have "parse_data env s (''BPM:'' @ v) = Inr (save_patient_data env ?s1)"
    using v h by (subst parse_data_bpm) simp
  with save_store_failure[OF p assms] p
  show "\<exists>s'. parse_data env s (''BPM:'' @ v) = Inr s' \<and>
                  last_bpm s' = Some n \<and> last_heartbeat s' = Some h \<and>
                  last (out s') = Print (Store (SaveError e))"
    by simp
qed

text \<open>
  Patient 1 with 72 and 512 pending and a full disk: the flush leaves both values pending;
  so does the line \<open>BPM:72\<close>.
\<close>

theorem store_failure_keeps_pending_witness:
  "append_raises disk_full_env = Some (OSError ''No space left on device'') \<and>
   last_bpm pending_monitor = Some 72 \<and> last_heartbeat pending_monitor = Some 512 \<and>
   last_bpm (save_patient_data disk_full_env pending_monitor) = Some 72 \<and>
   last_heartbeat (save_patient_data disk_full_env pending_monitor) = Some 512 \<and>
   last (out (save_patient_data disk_full_env pending_monitor)) =
     Print (Store (SaveError (OSError ''No space left on device''))) \<and>
   py_int (bpm_text ''72'') = Some 72 \<and>
   (\<exists>s'. parse_data disk_full_env pending_monitor ''BPM:72'' = Inr s' \<and>
         last_bpm s' = Some 72 \<and> last_heartbeat s' = Some 512 \<and>
         last (out s') = Print (Store (SaveError (OSError ''No space left on device''))))"
proof -
  have p: "last_bpm pending_monitor = Some 72" "last_heartbeat pending_monitor = Some 512"
    by (simp_all add: pending_monitor_def new_monitor_def)
  have d: "append_raises disk_full_env = Some (OSError ''No space left on device'')"
    by (simp add: disk_full_env_def)
  from store_failure_keeps_pending[OF d, of pending_monitor 72 512 "''72''" 72] p d example_texts(11)
  show ?thesis by simp
qed

text \<open>
  C4.  In every flush (both fields populated, the append does not fail) the record is in
  the log file whatever the upload answers, and the trace of the flush starts with the
  append and the report of it; when uploads are enabled the request follows, and a failed
  upload only adds its report.  Both fields are cleared in either case.
\<close>

theorem append_precedes_upload:
  assumes "last_bpm s = Some b" and "last_heartbeat s = Some h" and "append_raises env = None"
  shows "csv_file (save_patient_data env s) =
           append_row (csv_row (current_patient_number s) (clock_save env) b h) (csv_file s) \<and>
         last_bpm (save_patient_data env s) = None \<and>
         last_heartbeat (save_patient_data env s) = None \<and>
         (\<exists>post. out (save_patient_data env s) =
              out s @ [CsvAppend (csv_row (current_patient_number s) (clock_save env) b h),
                       Print (Store (Saved (current_patient_number s) b h))] @ post \<and>
            (if thingspeak_enabled s then
               take 2 post = [Print (Upload (TsSending (current_patient_number s) b h)),
                              HttpGet (current_patient_number s) b h (clock_upload env)] \<and>
               (if upload_ok env then last post \<noteq> Print (Store TsFailedSavedLocally)
                else last post = Print (Store TsFailedSavedLocally))
             else post = []))"
  using save_store_ok[OF assms] save_store_ok_out[OF assms] by simp

text \<open>The upload answers with the body \<open>0\<close>: the row is in the file and the fields are cleared.\<close>

theorem append_precedes_upload_witness:
  "last_bpm pending_monitor = Some 72 \<and> last_heartbeat pending_monitor = Some 512 \<and>
   append_raises rejecting_env = None \<and> \<not> upload_ok rejecting_env \<and>
   csv_file (save_patient_data rejecting_env pending_monitor) =
     Some [csv_header, [''1'', ''2024-05-01 10:00:00'', ''72'', ''512'']] \<and>
   last_bpm (save_patient_data rejecting_env pending_monitor) = None \<and>
   last_heartbeat (save_patient_data rejecting_env pending_monitor) = None"
proof -
  have p: "last_bpm pending_monitor = Some 72" "last_heartbeat pending_monitor = Some 512"
    "csv_file pending_monitor = Some [csv_header]" "current_patient_number pending_monitor = 1"
    by (simp_all add: pending_monitor_def new_monitor_def)
  have d: "append_raises rejecting_env = None" "\<not> upload_ok rejecting_env"
    "clock_save rejecting_env = ''2024-05-01 10:00:00''"
    by (simp_all add: rejecting_env_def calm_env_def upload_ok_def)
  from append_precedes_upload[OF p(1) p(2) d(1)] show ?thesis
    by (simp add: p d example_rows append_row_def)
qed

section \<open>Facts about writing and reading integers\<close>

lemma show_nat_digits: "show_nat n \<noteq> [] \<and> list_all is_digit (show_nat n)"
proof (induction n rule: show_nat.induct)
  case (1 n)
  show ?case
  proof (cases "n < 10")
    case True
    then show ?thesis
      by (subst (1 2) show_nat.simps) (simp add: is_digit_def digit_char_def)
  next
    case False
    have "n mod 10 < 10" by simp
    then have "is_digit (digit_char (n mod 10))"
      by (simp add: is_digit_def digit_char_def)
    with False 1 show ?thesis
      by (subst (1 2) show_nat.simps) simp
  qed
qed

lemma body_digits_all:
  "s \<noteq> [] \<Longrightarrow> list_all is_digit s \<Longrightarrow> body_digits s = Some (map digit_val s)"
proof (induction s rule: body_digits.induct)
  case 1
  then show ?case by simp
next
  case (2 c)
  then show ?case by simp
next
  case (3 c c' cs)
  from "3.prems" have "is_digit c'" by simp
  then have "c' \<noteq> CHR ''_''" by (auto simp: is_digit_def)
  with 3 show ?case by simp
qed

lemma show_nat_value:
  "foldl (\<lambda>a d. 10 * a + d) 0 (map digit_val (show_nat n)) = n"
proof (induction n rule: show_nat.induct)
  case (1 n)
  show ?case
  proof (cases "n < 10")
    case True
    then show ?thesis
      by (subst show_nat.simps) (simp add: digit_val_def digit_char_def)
  next
    case False
    have "n mod 10 < 10" by simp
    then have "digit_val (digit_char (n mod 10)) = n mod 10"
      by (simp add: digit_val_def digit_char_def)
    with False 1 show ?thesis
      by (subst show_nat.simps) simp
  qed
qed

lemma digits_value_show_nat: "digits_value (show_nat n) = Some n"
  using show_nat_digits[of n] by (simp add: digits_value_def body_digits_all show_nat_value)

lemma digit_not_space: "is_digit c \<Longrightarrow> \<not> is_int_space c"
  by (auto simp: is_digit_def is_int_space_def Let_def)

lemma digit_not_sign: "is_digit c \<Longrightarrow> c \<noteq> CHR ''-'' \<and> c \<noteq> CHR ''+''"
  by (auto simp: is_digit_def)

lemma int_strip_id:
  assumes "s \<noteq> []" "\<not> is_int_space (hd s)" "\<not> is_int_space (last s)"
  shows "int_strip s = s"
proof -
  from assms have "dropWhile is_int_space s = s"
    by (cases s) simp_all
  moreover from assms have "dropWhile is_int_space (rev s) = rev s"
    by (cases "rev s") (simp_all add: last_rev[symmetric] hd_rev)
  ultimately show ?thesis by (simp add: int_strip_def)
qed

lemma py_int_show_int: "py_int (show_int i) = Some i"
proof -
  define ds where "ds = show_nat (nat \<bar>i\<bar>)"
  have ne: "ds \<noteq> []" and dg: "list_all is_digit ds"
    using show_nat_digits[of "nat \<bar>i\<bar>"] by (simp_all add: ds_def)
  have hd: "is_digit (hd ds)" and la: "is_digit (last ds)"
    using ne dg by (simp_all add: list_all_iff)
  have dv: "digits_value ds = Some (nat \<bar>i\<bar>)"
    by (simp add: ds_def digits_value_show_nat)
  show ?thesis
  proof (cases "i < 0")
    case True
    then have s: "show_int i = CHR ''-'' # ds"
      by (simp add: show_int_def ds_def abs_if)
    have "\<not> is_int_space CHR ''-''" by (simp add: is_int_space_def)
    with la ne have "int_strip (CHR ''-'' # ds) = CHR ''-'' # ds"
      by (intro int_strip_id) (simp_all add: digit_not_space)
    with True dv show ?thesis
      by (simp add: s py_int_def)
  next
    case False
    then have s: "show_int i = ds"
      by (simp add: show_int_def ds_def abs_if)
    from hd la ne have st: "int_strip ds = ds"
      by (intro int_strip_id) (simp_all add: digit_not_space)
    obtain c cs where ds: "ds = c # cs" using ne by (cases ds) auto
    with hd have "c \<noteq> CHR ''-''" "c \<noteq> CHR ''+''" using digit_not_sign by auto
    with False dv ds st show ?thesis
      by (simp add: s py_int_def)
  qed
qed

section \<open>Properties of the log file at startup\<close>

lemma append_records_rows:
  "append_records recs (Some rows) = Some (rows @ map (\<lambda>(p, t, b, h). csv_row p t b h) recs)"
  unfolding append_records_def
  by (induction recs arbitrary: rows) (auto simp: append_row_def)

lemma initialize_existing:
  assumes "csv_file s = Some rows" and "1 < length rows" and "read_raises env = None"
    and "last rows = csv_row p t b h"
  shows "current_patient_number (initialize_csv env s) = p"
    and "csv_file (initialize_csv env s) = Some rows"
  using assms
  by (simp_all add: initialize_csv_def initialize_body_def py_index_def csv_row_def
        py_int_show_int Let_def)

lemma initialize_absent:
  assumes "csv_file s = None" and "create_raises env = None"
  shows "current_patient_number (initialize_csv env s) = 0"
    and "csv_file (initialize_csv env s) = Some [csv_header]"
  using assms
  by (simp_all add: initialize_csv_def initialize_body_def write_header_def Let_def)

lemma headerless_run:
  "(case handle_lines (initialize_csv quiet_fs (new_monitor None (Some [])))
           [(calm_env, ''DETECT:Queue=4''), (calm_env, ''HEARTBEAT:512''), (calm_env, ''BPM:72'')] of
      Inl e \<Rightarrow> False
    | Inr s1 \<Rightarrow>
        current_patient_number s1 = 4 \<and>
        csv_file s1 = Some [[''4'', ''2024-05-01 10:00:00'', ''72'', ''512'']] \<and>
        current_patient_number (initialize_csv quiet_fs (new_monitor None (csv_file s1))) = 0)"
  by code_simp

text \<open>
  C7, as the claim states it, fails: startup on a log file that exists but is empty leaves
  it empty (no header is written); the record of patient 4 is then the only row of the
  file, and startup on that file reads the counter back as 0, not as 4.
\<close>

theorem headerless_file_counterexample:
  "csv_file (initialize_csv quiet_fs (new_monitor None (Some []))) = Some [] \<and>
   (\<exists>s1. handle_lines (initialize_csv quiet_fs (new_monitor None (Some [])))
           [(calm_env, ''DETECT:Queue=4''), (calm_env, ''HEARTBEAT:512''), (calm_env, ''BPM:72'')] = Inr s1 \<and>
         current_patient_number s1 = 4 \<and>
         csv_file s1 = Some [[''4'', ''2024-05-01 10:00:00'', ''72'', ''512'']] \<and>
         current_patient_number (initialize_csv quiet_fs (new_monitor None (csv_file s1))) = 0)"
proof
  show "csv_file (initialize_csv quiet_fs (new_monitor None (Some []))) = Some []"
    by (simp add: initialize_csv_def initialize_body_def quiet_fs_def new_monitor_def Let_def)
  show "\<exists>s1. handle_lines (initialize_csv quiet_fs (new_monitor None (Some [])))
           [(calm_env, ''DETECT:Queue=4''), (calm_env, ''HEARTBEAT:512''), (calm_env, ''BPM:72'')] = Inr s1 \<and>
         current_patient_number s1 = 4 \<and>
         csv_file s1 = Some [[''4'', ''2024-05-01 10:00:00'', ''72'', ''512'']] \<and>
         current_patient_number (initialize_csv quiet_fs (new_monitor None (csv_file s1))) = 0"
    using headerless_run by (auto split: sum.splits)
qed

text \<open>
  C7, amended.  Reopening after appending, for a log file that held at least one row (its
  header) before the appends and whose last line was terminated (the file is a list of
  complete rows here, so that every appended record is a row of its own): when records
  have been appended to it and the file can be read, \<^verbatim>\<open>initialize_csv\<close> seeds the counter
  with the patient number of the last appended record and leaves the file as it is; in
  particular, after a flush the counter read back is the counter the flush wrote.  When
  the file is absent and can be created, it is created with the header row only and the
  counter starts at 0.
\<close>

theorem reopen_seeds_counter:
  "(recs \<noteq> [] \<longrightarrow> rows \<noteq> [] \<longrightarrow> read_raises env = None \<longrightarrow>
      csv_file s = append_records recs (Some rows) \<longrightarrow>
        current_patient_number (initialize_csv env s) = fst (last recs) \<and>
        csv_file (initialize_csv env s) = csv_file s) \<and>
   (last_bpm m = Some b \<longrightarrow> last_heartbeat m = Some h \<longrightarrow> append_raises fenv = None \<longrightarrow>
      csv_file m = Some rows \<longrightarrow> rows \<noteq> [] \<longrightarrow> read_raises env = None \<longrightarrow>
      csv_file s = csv_file (save_patient_data fenv m) \<longrightarrow>
        current_patient_number (initialize_csv env s) = current_patient_number m) \<and>
   (csv_file s = None \<longrightarrow> create_raises env = None \<longrightarrow>
      csv_file (initialize_csv env s) = Some [csv_header] \<and>
      current_patient_number (initialize_csv env s) = 0)"
proof (intro conjI impI)
  assume a: "recs \<noteq> []" "rows \<noteq> []" "read_raises env = None"
    "csv_file s = append_records recs (Some rows)"
  let ?all = "rows @ map (\<lambda>(p, t, b, h). csv_row p t b h) recs"
  obtain p t b h where l: "last recs = (p, t, b, h)" by (cases "last recs")
  have f: "csv_file s = Some ?all" using a(4) by (simp add: append_records_rows)
  have len: "1 < length ?all" using a(1,2) by (cases rows; cases recs) simp_all
  have la: "last ?all = csv_row p t b h" using a(1) l by (simp add: last_map)
  from initialize_existing[OF f len a(3) la] l f
  show "current_patient_number (initialize_csv env s) = fst (last recs)"
    and "csv_file (initialize_csv env s) = csv_file s" by simp_all
next
  assume a: "last_bpm m = Some b" "last_heartbeat m = Some h" "append_raises fenv = None"
    "csv_file m = Some rows" "rows \<noteq> []" "read_raises env = None"
    "csv_file s = csv_file (save_patient_data fenv m)"
  let ?row = "csv_row (current_patient_number m) (clock_save fenv) b h"
  have f: "csv_file s = Some (rows @ [?row])"
    using save_store_ok(1)[OF a(1,2,3)] a(4,7) by (simp add: append_row_def)
  have len: "1 < length (rows @ [?row])" using a(5) by (cases rows) simp_all
  from initialize_existing(1)[OF f len a(6), of "current_patient_number m" "clock_save fenv" b h]
  show "current_patient_number (initialize_csv env s) = current_patient_number m" by simp
next
  assume a: "csv_file s = None" "create_raises env = None"
  from initialize_absent[OF a]
  show "csv_file (initialize_csv env s) = Some [csv_header]"
    and "current_patient_number (initialize_csv env s) = 0" by simp_all
qed

text \<open>
  Two records for patients 1 and 2 appended to a file with its header: the counter read
  back is 2.  After the flush for patient 1 it is 1.  With no file, the header is written
  and the counter is 0.
\<close>

theorem reopen_seeds_counter_witness:
  "current_patient_number
     (initialize_csv quiet_fs
        (new_monitor None
           (append_records [(1, ''2024-05-01 10:00:00'', 72, 512), (2, ''2024-05-01 10:05:00'', 80, 498)]
              (Some [csv_header])))) = 2 \<and>
   current_patient_number
     (initialize_csv quiet_fs
        (new_monitor None (csv_file (save_patient_data calm_env pending_monitor)))) = 1 \<and>
   csv_file (initialize_csv quiet_fs (new_monitor None None)) = Some [csv_header] \<and>
   current_patient_number (initialize_csv quiet_fs (new_monitor None None)) = 0"
proof -
  let ?recs = "[(1, ''2024-05-01 10:00:00'', 72, 512), (2, ''2024-05-01 10:05:00'', 80, 498)]
                 :: (int \<times> string \<times> int \<times> int) list"
  let ?s = "new_monitor None (append_records ?recs (Some [csv_header]))"
  let ?s1 = "new_monitor None (csv_file (save_patient_data calm_env pending_monitor))"
  have q: "read_raises quiet_fs = None" "create_raises quiet_fs = None"
    by (simp_all add: quiet_fs_def)
  have p: "last_bpm pending_monitor = Some 72" "last_heartbeat pending_monitor = Some 512"
    "csv_file pending_monitor = Some [csv_header]" "current_patient_number pending_monitor = 1"
    by (simp_all add: pending_monitor_def new_monitor_def)
  have c: "append_raises calm_env = None" by (simp add: calm_env_def)
  have f: "csv_file ?s = append_records ?recs (Some [csv_header])"
    "csv_file ?s1 = csv_file (save_patient_data calm_env pending_monitor)"
    "csv_file (new_monitor None None) = None"
    by (simp_all add: new_monitor_def)
  from reopen_seeds_counter[of ?recs "[csv_header]" quiet_fs ?s pending_monitor 72 512 calm_env]
       reopen_seeds_counter[of ?recs "[csv_header]" quiet_fs ?s1 pending_monitor 72 512 calm_env]
       reopen_seeds_counter[of ?recs "[csv_header]" quiet_fs "new_monitor None None" pending_monitor 72 512 calm_env]
  show ?thesis
    by (simp add: q p c f)
qed

section \<open>Facts about the device locator\<close>

lemma fromkeys_set [simp]: "set (fromkeys xs) = set xs"
  by (induction xs) auto

lemma fromkeys_distinct [simp]: "distinct (fromkeys xs)"
  by (induction xs) auto

lemma fromkeys_subseq: "subseq (fromkeys xs) xs"
proof (induction xs)
  case Nil
  then show ?case by simp
next
  case (Cons x xs)
  have "subseq (filter (\<lambda>y. y \<noteq> x) (fromkeys xs)) (fromkeys xs)" by simp
  with Cons have "subseq (filter (\<lambda>y. y \<noteq> x) (fromkeys xs)) xs"
    using subseq_order.order_trans by blast
  then show ?case by simp
qed

lemma fromkeys_append:
  "fromkeys (xs @ ys) = fromkeys xs @ filter (\<lambda>y. y \<notin> set xs) (fromkeys ys)"
proof (induction xs)
  case Nil
  then show ?case by simp
next
  case (Cons x xs)
  have "filter (\<lambda>y. y \<noteq> x) (filter (\<lambda>y. y \<notin> set xs) (fromkeys ys)) =
        filter (\<lambda>y. y \<notin> set (x # xs)) (fromkeys ys)"
    by (auto intro: filter_cong)
  with Cons show ?case by simp
qed

lemma fromkeys_pair:
  assumes "a \<noteq> b" "a \<notin> set xs" "b \<notin> set xs"
  shows "\<exists>post. fromkeys (xs @ a # b # ys) = fromkeys xs @ a # b # post"
  using assms by (simp add: fromkeys_append)

lemma split_first_decompose:
  "split_first sep s = Some (a, b) \<Longrightarrow> s = a @ sep @ b"
proof (induction s arbitrary: a)
  case Nil
  then show ?case by simp
next
  case (Cons c cs)
  show ?case
  proof (cases "prefix sep (c # cs)")
    case True
    with Cons.prems show ?thesis
      by (auto simp: prefix_def)
  next
    case False
    with Cons.prems obtain a' where a': "split_first sep cs = Some (a', b)" "a = c # a'"
      by (auto split: prod.splits)
    with Cons.IH show ?thesis by simp
  qed
qed

lemma py_replace_grows:
  "length old \<le> length new \<Longrightarrow> length s \<le> length (py_replace old new s)"
proof (induction old new s rule: py_replace.induct)
  case (1 old new s)
  show ?case
  proof (cases "old = []")
    case True
    then show ?thesis by (subst py_replace.simps) simp
  next
    case False
    show ?thesis
    proof (cases "split_first old s")
      case None
      with False show ?thesis by (subst py_replace.simps) simp
    next
      case (Some ab)
      obtain a b where ab: "ab = (a, b)" by (cases ab)
      from Some ab have sp: "split_first old s = Some (a, b)" by simp
      from "1.IH"[OF False sp refl] "1.prems" have "length b \<le> length (py_replace old new b)"
        by simp
      with split_first_decompose[OF sp] "1.prems" False sp show ?thesis
        by (subst py_replace.simps) simp
    qed
  qed
qed

lemma py_replace_shrinks:
  "length new \<le> length old \<Longrightarrow> length (py_replace old new s) \<le> length s"
proof (induction old new s rule: py_replace.induct)
  case (1 old new s)
  show ?case
  proof (cases "old = []")
    case True
    then show ?thesis by (subst py_replace.simps) simp
  next
    case False
    show ?thesis
    proof (cases "split_first old s")
      case None
      with False show ?thesis by (subst py_replace.simps) simp
    next
      case (Some ab)
      obtain a b where ab: "ab = (a, b)" by (cases ab)
      from Some ab have sp: "split_first old s = Some (a, b)" by simp
      from "1.IH"[OF False sp refl] "1.prems" have "length (py_replace old new b) \<le> length b"
        by simp
      with split_first_decompose[OF sp] "1.prems" False sp show ?thesis
        by (subst py_replace.simps) simp
    qed
  qed
qed

lemma cu_sibling_longer:
  assumes "contains ''cu.'' name"
  shows "length name < length (py_replace ''cu.'' ''tty.'' name)"
proof -
  from assms obtain a b where sp: "split_first ''cu.'' name = Some (a, b)"
    by (auto simp: contains_split_first)
  have "length b \<le> length (py_replace ''cu.'' ''tty.'' b)"
    by (rule py_replace_grows) simp
  with split_first_decompose[OF sp] sp show ?thesis
    by (subst py_replace.simps) simp
qed

lemma tty_sibling_shorter:
  assumes "contains ''tty.'' name"
  shows "length (py_replace ''tty.'' ''cu.'' name) < length name"
proof -
  from assms obtain a b where sp: "split_first ''tty.'' name = Some (a, b)"
    by (auto simp: contains_split_first)
  have "length (py_replace ''tty.'' ''cu.'' b) \<le> length b"
    by (rule py_replace_shrinks) simp
  with split_first_decompose[OF sp] sp show ?thesis
    by (subst py_replace.simps) simp
qed

lemma port_variants_shape:
  "port_variants name = [name] \<or> (\<exists>sibling. sibling \<noteq> name \<and> port_variants name = [name, sibling])"
  using cu_sibling_longer[of name] tty_sibling_shorter[of name]
  by (auto simp: port_variants_def)

lemma find_available_ports:
  "fst (find_available_arduino_port cs s) = fromkeys (all_ports_to_try cs)"
  by (simp add: find_available_arduino_port_def Let_def)

section \<open>Properties of the device locator\<close>

lemma mac_ports_found:
  "arduino_ports mac_ports = [''/dev/cu.usbmodem14101'', ''/dev/tty.usbmodem14101'']"
  "port_variants ''/dev/cu.usbmodem14101'' = [''/dev/cu.usbmodem14101'', ''/dev/tty.usbmodem14101'']"
  "port_variants ''/dev/tty.usbmodem14101'' = [''/dev/tty.usbmodem14101'', ''/dev/cu.usbmodem14101'']"
  "contains ''cu.'' ''/dev/cu.usbmodem14101''"
  by code_simp+

text \<open>
  C9.  The candidates returned for a scan hold no name twice; they are exactly the
  matching names and their siblings; they stand in the order in which the names and
  siblings were emitted (each matching name, then its sibling).  A name with the
  \<open>cu.\<close> marker is emitted followed by the name with every \<open>cu.\<close> replaced by
  \<open>tty.\<close>, which differs from it; a name with the \<open>tty.\<close> marker only, followed by the
  name with every \<open>tty.\<close> replaced by \<open>cu.\<close>.  Where neither a name nor its sibling was
  emitted for an earlier name of the scan, the sibling follows the name directly in the
  result.
\<close>

theorem candidates_distinct_in_order:
  "distinct (fst (find_available_arduino_port cs s)) \<and>
   set (fst (find_available_arduino_port cs s)) = set (concat (map port_variants (arduino_ports cs))) \<and>
   subseq (fst (find_available_arduino_port cs s)) (concat (map port_variants (arduino_ports cs))) \<and>
   (contains ''cu.'' name \<longrightarrow>
      port_variants name = [name, py_replace ''cu.'' ''tty.'' name] \<and>
      py_replace ''cu.'' ''tty.'' name \<noteq> name) \<and>
   (\<not> contains ''cu.'' name \<longrightarrow> contains ''tty.'' name \<longrightarrow>
      port_variants name = [name, py_replace ''tty.'' ''cu.'' name] \<and>
      py_replace ''tty.'' ''cu.'' name \<noteq> name) \<and>
   (arduino_ports cs = before @ name # after \<longrightarrow> port_variants name = [name, sibling] \<longrightarrow>
      name \<notin> set (concat (map port_variants before)) \<longrightarrow>
      sibling \<notin> set (concat (map port_variants before)) \<longrightarrow>
      (\<exists>pre post. fst (find_available_arduino_port cs s) = pre @ name # sibling # post))"
proof (intro conjI impI)
  show "distinct (fst (find_available_arduino_port cs s))"
    by (simp add: find_available_ports)
  show "set (fst (find_available_arduino_port cs s)) = set (concat (map port_variants (arduino_ports cs)))"
    by (simp add: find_available_ports all_ports_to_try_def)
  show "subseq (fst (find_available_arduino_port cs s)) (concat (map port_variants (arduino_ports cs)))"
    using fromkeys_subseq[of "all_ports_to_try cs"]
    by (simp add: find_available_ports all_ports_to_try_def)
next
  assume "contains ''cu.'' name"
  then show "port_variants name = [name, py_replace ''cu.'' ''tty.'' name]"
    and "py_replace ''cu.'' ''tty.'' name \<noteq> name"
    using cu_sibling_longer[of name] by (auto simp: port_variants_def)
next
  assume "\<not> contains ''cu.'' name" "contains ''tty.'' name"
  then show "port_variants name = [name, py_replace ''tty.'' ''cu.'' name]"
    and "py_replace ''tty.'' ''cu.'' name \<noteq> name"
    using tty_sibling_shorter[of name] by (auto simp: port_variants_def)
next
  assume a: "arduino_ports cs = before @ name # after" "port_variants name = [name, sibling]"
    "name \<notin> set (concat (map port_variants before))"
    "sibling \<notin> set (concat (map port_variants before))"
  from port_variants_shape[of name] a(2) have ne: "name \<noteq> sibling" by auto
  have "all_ports_to_try cs =
          concat (map port_variants before) @ name # sibling # concat (map port_variants after)"
    using a(1,2) by (simp add: all_ports_to_try_def)
  with fromkeys_pair[OF ne a(3) a(4), of "concat (map port_variants after)"]
  show "\<exists>pre post. fst (find_available_arduino_port cs s) = pre @ name # sibling # post"
    by (auto simp: find_available_ports)
qed

text \<open>
  The board listed as \<open>cu.usbmodem14101\<close> and as \<open>tty.usbmodem14101\<close> gives the two
  candidates once each, the \<open>cu.\<close> name first.
\<close>

theorem candidates_distinct_in_order_witness:
  "arduino_ports mac_ports = [] @ ''/dev/cu.usbmodem14101'' # [''/dev/tty.usbmodem14101''] \<and>
   contains ''cu.'' ''/dev/cu.usbmodem14101'' \<and>
   port_variants ''/dev/cu.usbmodem14101'' = [''/dev/cu.usbmodem14101'', ''/dev/tty.usbmodem14101''] \<and>
   distinct (fst (find_available_arduino_port mac_ports (new_monitor None None))) \<and>
   set (fst (find_available_arduino_port mac_ports (new_monitor None None))) =
     {''/dev/cu.usbmodem14101'', ''/dev/tty.usbmodem14101''} \<and>
   (\<exists>pre post. fst (find_available_arduino_port mac_ports (new_monitor None None)) =
      pre @ ''/dev/cu.usbmodem14101'' # ''/dev/tty.usbmodem14101'' # post)"
proof -
  have a: "arduino_ports mac_ports = [] @ ''/dev/cu.usbmodem14101'' # [''/dev/tty.usbmodem14101'']"
    by (simp add: mac_ports_found)
  note t = candidates_distinct_in_order[of mac_ports "new_monitor None None" "''/dev/cu.usbmodem14101''"
         "[]" "[''/dev/tty.usbmodem14101'']" "''/dev/tty.usbmodem14101''"]
  have n: "''/dev/cu.usbmodem14101'' \<notin> set (concat (map port_variants []))"
    "''/dev/tty.usbmodem14101'' \<notin> set (concat (map port_variants []))"
    by simp_all
  from t have d: "distinct (fst (find_available_arduino_port mac_ports (new_monitor None None)))"
    by blast
  from t have "set (fst (find_available_arduino_port mac_ports (new_monitor None None))) =
                 set (concat (map port_variants (arduino_ports mac_ports)))"
    by blast
  then have s: "set (fst (find_available_arduino_port mac_ports (new_monitor None None))) =
                 {''/dev/cu.usbmodem14101'', ''/dev/tty.usbmodem14101''}"
    by (auto simp: mac_ports_found)
  from t a mac_ports_found(2) n
  have e: "\<exists>pre post. fst (find_available_arduino_port mac_ports (new_monitor None None)) =
             pre @ ''/dev/cu.usbmodem14101'' # ''/dev/tty.usbmodem14101'' # post"
    by blast
  from a mac_ports_found(4) mac_ports_found(2) d s e show ?thesis
    by blast
qed

section \<open>Facts about the connection manager\<close>

lemma timeline_emit [simp]:
  "timeline (emit e s) = timeline s @ (if tracked e then [e] else [])"
  by (simp add: timeline_def)

lemma timeline_say [simp]: "timeline (say m s) = timeline s"
  by (simp add: timeline_def)

lemma timeline_update [simp]:
  "timeline (s\<lparr>port := p\<rparr>) = timeline s"
  "timeline (s\<lparr>ser := h\<rparr>) = timeline s"
  "timeline (s\<lparr>running := r\<rparr>) = timeline s"
  "timeline (s\<lparr>current_patient_number := n\<rparr>) = timeline s"
  "timeline (s\<lparr>connection_lost := c\<rparr>) = timeline s"
  "timeline (s\<lparr>csv_file := f\<rparr>) = timeline s"
  by (simp_all add: timeline_def)

lemma foldl_say:
  "foldl (\<lambda>t p. say (f p) t) s ps = s\<lparr>out := out s @ map (\<lambda>p. Print (f p)) ps\<rparr>"
  by (induction ps arbitrary: s) (simp_all add: say_as_update)

lemma find_available_state:
  "snd (find_available_arduino_port cs s) =
     s\<lparr>out := out s @ Print (Locator Scanning) # PortScan #
                 map (\<lambda>p. Print (Locator (Found (fst p) (snd p)))) (filter is_arduino cs)\<rparr>"
  unfolding find_available_arduino_port_def Let_def foldl_say
  by (simp add: say_def emit_def)

lemma filter_tracked_prints [simp]: "filter tracked (map (\<lambda>p. Print (f p)) ps) = []"
  by (induction ps) simp_all

lemma find_available_frame:
  "port (snd (find_available_arduino_port cs s)) = port s"
  "running (snd (find_available_arduino_port cs s)) = running s"
  "timeline (snd (find_available_arduino_port cs s)) = timeline s @ [PortScan]"
  by (simp_all add: find_available_state timeline_def)

lemma test_port_frame:
  "port (snd (test_port pr p s)) = port s"
  "running (snd (test_port pr p s)) = running s"
  "timeline (snd (test_port pr p s)) = timeline s"
  "fst (test_port pr p s) = (pr p = None)"
  by (simp_all add: test_port_def Let_def split: option.splits)

lemma test_ports_frame:
  "port (snd (test_ports pr ps s)) = port s"
  "running (snd (test_ports pr ps s)) = running s"
  "timeline (snd (test_ports pr ps s)) = timeline s"
  "fst (test_ports pr ps s) = filter (\<lambda>p. pr p = None) ps"
  by (induction ps arbitrary: s; simp add: case_prod_beta Let_def test_port_frame)+

lemma write_header_frame:
  "write_header r s = Inr s' \<Longrightarrow>
     port s' = port s \<and> running s' = running s \<and> timeline s' = timeline s"
  by (auto simp: write_header_def split: option.splits)

lemma initialize_body_frame:
  "initialize_body env s = Inr s' \<Longrightarrow>
     port s' = port s \<and> running s' = running s \<and> timeline s' = timeline s"
  by (auto simp: initialize_body_def Let_def dest!: write_header_frame
           split: option.splits sum.splits if_splits)

lemma initialize_csv_frame:
  "port (initialize_csv env s) = port s"
  "running (initialize_csv env s) = running s"
  "timeline (initialize_csv env s) = timeline s"
  by (auto simp: initialize_csv_def Let_def dest!: write_header_frame initialize_body_frame
           split: sum.splits)

lemma connect_handler_busy:
  assumes "is_busy e"
  shows "\<exists>s'. connect_handler a p e s = Next s' \<and> port s' = None \<and> running s' = running s \<and>
           timeline s' = timeline s @ (if a < max_retries - 1 then [Sleep 2] else []) \<and>
           (a < max_retries - 1 \<longrightarrow> last (out s') = Sleep 2)"
  using assms
  by (simp add: connect_handler_def is_busy_def Let_def retry_delay_def)

lemma connect_handler_other:
  assumes "\<not> is_busy e"
  shows "\<exists>s'. connect_handler a p e s = Return False s' \<and> running s' = running s \<and>
           timeline s' = timeline s"
  using assms
  by (auto simp: connect_handler_def is_busy_def)

lemma connect_handler_effect:
  "running (state_of (connect_handler a p e s)) = running s"
  "\<exists>evs. timeline (state_of (connect_handler a p e s)) = timeline s @ evs \<and>
         filter (\<lambda>e. e = PortScan) evs = [] \<and> filter is_port_open evs = []"
  "connect_handler a p e s = Next s' \<Longrightarrow>
     port s' = None \<and> (a < max_retries - 1 \<longrightarrow> last (out s') = Sleep 2)"
proof -
  show "running (state_of (connect_handler a p e s)) = running s"
    using connect_handler_busy[of e a p s] connect_handler_other[of e a p s]
    by (cases "is_busy e") auto
  show "\<exists>evs. timeline (state_of (connect_handler a p e s)) = timeline s @ evs \<and>
         filter (\<lambda>e. e = PortScan) evs = [] \<and> filter is_port_open evs = []"
    using connect_handler_busy[of e a p s] connect_handler_other[of e a p s]
    by (cases "is_busy e") auto
  show "connect_handler a p e s = Next s' \<Longrightarrow>
     port s' = None \<and> (a < max_retries - 1 \<longrightarrow> last (out s') = Sleep 2)"
    using connect_handler_busy[of e a p s] connect_handler_other[of e a p s]
    by (cases "is_busy e") auto
qed

lemma open_port_effect:
  "running (state_of (open_port env a p s)) = running s"
  "\<exists>evs. timeline (state_of (open_port env a p s)) = timeline s @ PortOpen p # evs \<and>
         filter (\<lambda>e. e = PortScan) evs = [] \<and> filter is_port_open evs = []"
  "open_port env a p s = Next s' \<Longrightarrow>
     port s' = None \<and> (a < max_retries - 1 \<longrightarrow> last (out s') = Sleep 2)"
proof -
  let ?s1 = "emit (PortOpen p) (say (Conn (Connecting p)) s)"
  let ?s2 = "emit (Sleep 2) (say (Conn (Connected p)) (?s1\<lparr>ser := Some \<lparr>is_open = True\<rparr>\<rparr>))"
  have t1: "timeline ?s1 = timeline s @ [PortOpen p]" by simp
  have t2: "timeline ?s2 = timeline s @ [PortOpen p, Sleep 2]" by simp
  consider (fail) e where "open_raises env p = Some e"
    | (late) e where "open_raises env p = None" "in_waiting env = Inl e"
    | (ok) n where "open_raises env p = None" "in_waiting env = Inr n"
    by (cases "open_raises env p"; cases "in_waiting env") auto
  then have "running (state_of (open_port env a p s)) = running s \<and>
    (\<exists>evs. timeline (state_of (open_port env a p s)) = timeline s @ PortOpen p # evs \<and>
         filter (\<lambda>e. e = PortScan) evs = [] \<and> filter is_port_open evs = []) \<and>
    (open_port env a p s = Next s' \<longrightarrow>
       port s' = None \<and> (a < max_retries - 1 \<longrightarrow> last (out s') = Sleep 2))"
  proof cases
    case fail
    then have o: "open_port env a p s = connect_handler a p e ?s1"
      by (simp add: open_port_def Let_def)
    from connect_handler_effect(2)[of a p e ?s1] obtain evs where
      "timeline (state_of (connect_handler a p e ?s1)) = timeline ?s1 @ evs"
      "filter (\<lambda>e. e = PortScan) evs = []" "filter is_port_open evs = []" by blast
    with connect_handler_effect(1)[of a p e ?s1] connect_handler_effect(3)[of a p e ?s1 s'] o t1
    show ?thesis by auto
  next
    case late
    then have o: "open_port env a p s = connect_handler a p e ?s2"
      by (simp add: open_port_def Let_def)
    from connect_handler_effect(2)[of a p e ?s2] obtain evs where
      "timeline (state_of (connect_handler a p e ?s2)) = timeline ?s2 @ evs"
      "filter (\<lambda>e. e = PortScan) evs = []" "filter is_port_open evs = []" by blast
    with connect_handler_effect(1)[of a p e ?s2] connect_handler_effect(3)[of a p e ?s2 s'] o t2
    show ?thesis by auto
  next
    case ok
    then show ?thesis
      by (simp add: open_port_def Let_def initialize_csv_frame)
  qed
  then show "running (state_of (open_port env a p s)) = running s"
    and "\<exists>evs. timeline (state_of (open_port env a p s)) = timeline s @ PortOpen p # evs \<and>
         filter (\<lambda>e. e = PortScan) evs = [] \<and> filter is_port_open evs = []"
    and "open_port env a p s = Next s' \<Longrightarrow>
     port s' = None \<and> (a < max_retries - 1 \<longrightarrow> last (out s') = Sleep 2)"
    by blast+
qed

lemma connect_attempt_no_port:
  assumes "no_port s"
  shows "connect_attempt env a s =
     (let s1 = snd (find_available_arduino_port (comports env) s);
          working = filter (\<lambda>p. probe_raises env p = None) (candidates env)
      in if candidates env = [] then Return False (say (Conn NoPortsFound) s1)
         else
           let s3 = snd (test_ports (probe_raises env) (candidates env)
                          (say (Conn (AttemptTesting (a + 1) max_retries)) s1))
           in if working = [] then
                Next (if a < max_retries - 1
                      then emit (Sleep 2) (say (Conn (RetryingIn retry_delay)) (say (Conn NoWorkingPorts) s3))
                      else say (Conn NoWorkingPorts) s3)
              else open_port env a (hd working)
                     (say (Conn (SelectedPort (hd working))) (s3\<lparr>port := Some (hd working)\<rparr>)))"
  using assms
  by (simp add: connect_attempt_def case_prod_beta Let_def find_available_ports candidates_def
        test_ports_frame retry_delay_def)

lemma connect_attempt_pinned:
  assumes "port s = Some p" "p \<noteq> []"
  shows "connect_attempt env a s = open_port env a p s"
  using assms by (simp add: connect_attempt_def no_port_def)

lemma no_port_cases: "no_port s \<or> (\<exists>p. port s = Some p \<and> p \<noteq> [])"
  by (cases "port s") (auto simp: no_port_def)

lemma connect_attempt_all_fail:
  assumes "no_port s" "candidates env \<noteq> []"
    and "list_all (\<lambda>p. probe_raises env p \<noteq> None) (candidates env)"
  shows "\<exists>s'. connect_attempt env a s = Next s' \<and> no_port s' \<and> running s' = running s \<and>
           timeline s' = timeline s @ PortScan # (if a < max_retries - 1 then [Sleep 2] else [])"
proof -
  have w: "filter (\<lambda>p. probe_raises env p = None) (candidates env) = []"
    using assms(3) by (auto simp: filter_empty_conv list_all_iff)
  show ?thesis
    using assms(1,2)
    by (simp add: connect_attempt_no_port w Let_def no_port_def test_ports_frame find_available_frame)
qed

lemma connect_attempt_effect:
  "running (state_of (connect_attempt env a s)) = running s"
  "\<exists>evs. timeline (state_of (connect_attempt env a s)) = timeline s @ evs \<and>
         length (filter (\<lambda>e. e = PortScan) evs) \<le> 1 \<and> length (filter is_port_open evs) \<le> 1"
  "connect_attempt env a s = Next s' \<Longrightarrow> a < max_retries - 1 \<Longrightarrow> last (out s') = Sleep 2"
proof -
  have "running (state_of (connect_attempt env a s)) = running s \<and>
    (\<exists>evs. timeline (state_of (connect_attempt env a s)) = timeline s @ evs \<and>
         length (filter (\<lambda>e. e = PortScan) evs) \<le> 1 \<and> length (filter is_port_open evs) \<le> 1) \<and>
    (connect_attempt env a s = Next s' \<longrightarrow> a < max_retries - 1 \<longrightarrow> last (out s') = Sleep 2)"
  proof (cases "no_port s")
    case False
    with no_port_cases[of s] obtain p where p: "port s = Some p" "p \<noteq> []" by blast
    from open_port_effect(2)[of env a p s] obtain evs where
      "timeline (state_of (open_port env a p s)) = timeline s @ PortOpen p # evs"
      "filter (\<lambda>e. e = PortScan) evs = []" "filter is_port_open evs = []" by blast
    then have "timeline (state_of (open_port env a p s)) = timeline s @ (PortOpen p # evs) \<and>
         length (filter (\<lambda>e. e = PortScan) (PortOpen p # evs)) \<le> 1 \<and>
         length (filter is_port_open (PortOpen p # evs)) \<le> 1" by simp
    with open_port_effect(1)[of env a p s] open_port_effect(3)[of env a p s s']
    show ?thesis
      unfolding connect_attempt_pinned[OF p] by blast
  next
    case True
    let ?s1 = "snd (find_available_arduino_port (comports env) s)"
    let ?w = "filter (\<lambda>p. probe_raises env p = None) (candidates env)"
    let ?s3 = "snd (test_ports (probe_raises env) (candidates env)
                          (say (Conn (AttemptTesting (a + 1) max_retries)) ?s1))"
    let ?s4 = "say (Conn (SelectedPort (hd ?w))) (?s3\<lparr>port := Some (hd ?w)\<rparr>)"
    consider (none) "candidates env = []" | (dead) "candidates env \<noteq> []" "?w = []"
      | (go) "candidates env \<noteq> []" "?w \<noteq> []" by blast
    then show ?thesis
    proof cases
      case none
      then show ?thesis
        by (simp add: connect_attempt_no_port[OF True] Let_def find_available_frame)
    next
      case dead
      then show ?thesis
        by (auto simp: connect_attempt_no_port[OF True] Let_def test_ports_frame find_available_frame)
    next
      case go
      then have c: "connect_attempt env a s = open_port env a (hd ?w) ?s4"
        by (simp add: connect_attempt_no_port[OF True] Let_def)
      from open_port_effect(2)[of env a "hd ?w" ?s4] obtain evs where
        "timeline (state_of (open_port env a (hd ?w) ?s4)) = timeline ?s4 @ PortOpen (hd ?w) # evs"
        "filter (\<lambda>e. e = PortScan) evs = []" "filter is_port_open evs = []" by blast
      then have "timeline (state_of (open_port env a (hd ?w) ?s4)) =
                   timeline s @ (PortScan # PortOpen (hd ?w) # evs) \<and>
         length (filter (\<lambda>e. e = PortScan) (PortScan # PortOpen (hd ?w) # evs)) \<le> 1 \<and>
         length (filter is_port_open (PortScan # PortOpen (hd ?w) # evs)) \<le> 1"
        by (simp add: test_ports_frame find_available_frame)
      with open_port_effect(1)[of env a "hd ?w" ?s4] open_port_effect(3)[of env a "hd ?w" ?s4 s']
      show ?thesis
        unfolding c by (auto simp: test_ports_frame find_available_frame)
    qed
  qed
  then show "running (state_of (connect_attempt env a s)) = running s"
    and "\<exists>evs. timeline (state_of (connect_attempt env a s)) = timeline s @ evs \<and>
         length (filter (\<lambda>e. e = PortScan) evs) \<le> 1 \<and> length (filter is_port_open evs) \<le> 1"
    and "connect_attempt env a s = Next s' \<Longrightarrow> a < max_retries - 1 \<Longrightarrow> last (out s') = Sleep 2"
    by blast+
qed

lemma connect_for_effect:
  "running (snd (connect_for envs as s)) = running s \<and>
   (\<exists>evs. timeline (snd (connect_for envs as s)) = timeline s @ evs \<and>
         length (filter (\<lambda>e. e = PortScan) evs) \<le> length as \<and>
         length (filter is_port_open evs) \<le> length as)"
proof (induction as arbitrary: s)
  case Nil
  then show ?case by simp
next
  case (Cons a as)
  from connect_attempt_effect(2)[of "envs a" a s] obtain evs where e:
    "timeline (state_of (connect_attempt (envs a) a s)) = timeline s @ evs"
    "length (filter (\<lambda>e. e = PortScan) evs) \<le> 1" "length (filter is_port_open evs) \<le> 1"
    by blast
  note r = connect_attempt_effect(1)[of "envs a" a s]
  show ?case
  proof (cases "connect_attempt (envs a) a s")
    case (Return b s')
    with e r show ?thesis by (auto intro!: exI[of _ evs])
  next
    case (Next s')
    from Cons.IH[of s'] obtain evs' where e':
      "running (snd (connect_for envs as s')) = running s'"
      "timeline (snd (connect_for envs as s')) = timeline s' @ evs'"
      "length (filter (\<lambda>e. e = PortScan) evs') \<le> length as"
      "length (filter is_port_open evs') \<le> length as" by blast
    with Next e r show ?thesis
      by (auto intro!: exI[of _ "evs @ evs'"])
  qed
qed

lemma upt_max_retries: "[0..<max_retries] = [0, 1, 2]"
  by (simp add: max_retries_def upt_rec)

lemma connect_running: "running (snd (connect envs s)) = running s"
  using connect_for_effect[of envs "[0..<max_retries]" s] by (simp add: connect_def)

section \<open>Properties of the connection manager\<close>

lemma connect_attempt_scans:
  assumes "no_port s"
  shows "\<exists>rest. timeline (state_of (connect_attempt env a s)) = timeline s @ PortScan # rest"
proof -
  let ?s1 = "snd (find_available_arduino_port (comports env) s)"
  let ?w = "filter (\<lambda>p. probe_raises env p = None) (candidates env)"
  let ?s3 = "snd (test_ports (probe_raises env) (candidates env)
                        (say (Conn (AttemptTesting (a + 1) max_retries)) ?s1))"
  let ?s4 = "say (Conn (SelectedPort (hd ?w))) (?s3\<lparr>port := Some (hd ?w)\<rparr>)"
  consider (none) "candidates env = []" | (dead) "candidates env \<noteq> []" "?w = []"
    | (go) "candidates env \<noteq> []" "?w \<noteq> []" by blast
  then show ?thesis
  proof cases
    case none
    then show ?thesis
      by (simp add: connect_attempt_no_port[OF assms] Let_def find_available_frame)
  next
    case dead
    then show ?thesis
      by (simp add: connect_attempt_no_port[OF assms] Let_def test_ports_frame find_available_frame)
  next
    case go
    then have c: "connect_attempt env a s = open_port env a (hd ?w) ?s4"
      by (simp add: connect_attempt_no_port[OF assms] Let_def)
    from open_port_effect(2)[of env a "hd ?w" ?s4] obtain evs where
      "timeline (state_of (open_port env a (hd ?w) ?s4)) = timeline ?s4 @ PortOpen (hd ?w) # evs"
      by blast
    then show ?thesis
      unfolding c by (simp add: test_ports_frame find_available_frame)
  qed
qed

lemma connect_attempt_pinned_busy:
  assumes "port s = Some p" "p \<noteq> []" "open_raises env p = Some e" "is_busy e"
  shows "\<exists>s'. connect_attempt env a s = Next s' \<and> port s' = None"
proof -
  let ?s1 = "emit (PortOpen p) (say (Conn (Connecting p)) s)"
  have "connect_attempt env a s = connect_handler a p e ?s1"
    using assms(1,2,3) by (simp add: connect_attempt_pinned open_port_def Let_def)
  with connect_handler_busy[OF assms(4), of a p ?s1] show ?thesis by auto
qed

lemma connect_all_fail:
  assumes "no_port s"
    and "\<forall>a<max_retries. candidates (envs a) \<noteq> [] \<and>
           list_all (\<lambda>p. probe_raises (envs a) p \<noteq> None) (candidates (envs a))"
  shows "fst (connect envs s) = False \<and>
         timeline (snd (connect envs s)) = timeline s @ [PortScan, Sleep 2, PortScan, Sleep 2, PortScan]"
proof -
  have h: "candidates (envs 0) \<noteq> []" "list_all (\<lambda>p. probe_raises (envs 0) p \<noteq> None) (candidates (envs 0))"
    "candidates (envs 1) \<noteq> []" "list_all (\<lambda>p. probe_raises (envs 1) p \<noteq> None) (candidates (envs 1))"
    "candidates (envs 2) \<noteq> []" "list_all (\<lambda>p. probe_raises (envs 2) p \<noteq> None) (candidates (envs 2))"
    using assms(2) by (simp_all add: max_retries_def)
  from connect_attempt_all_fail[OF assms(1) h(1,2), of 0] obtain s0 where
    s0: "connect_attempt (envs 0) 0 s = Next s0" "no_port s0" "timeline s0 = timeline s @ [PortScan, Sleep 2]"
    by (auto simp: max_retries_def)
  from connect_attempt_all_fail[OF s0(2) h(3,4), of 1] obtain s1 where
    s1: "connect_attempt (envs 1) 1 s0 = Next s1" "no_port s1" "timeline s1 = timeline s0 @ [PortScan, Sleep 2]"
    by (auto simp: max_retries_def)
  from connect_attempt_all_fail[OF s1(2) h(5,6), of 2] obtain s2 where
    s2: "connect_attempt (envs 2) 2 s1 = Next s2" "timeline s2 = timeline s1 @ [PortScan]"
    by (auto simp: max_retries_def)
  have "connect envs s = (False, s2)"
    using s0(1) s1(1) s2(1) by (simp add: connect_def upt_max_retries)
  with s0(3) s1(3) s2(2) show ?thesis by simp
qed

lemma open_port_busy:
  assumes "is_busy e"
    and "open_raises env p = Some e \<or> (open_raises env p = None \<and> in_waiting env = Inl e)"
  shows "\<exists>t. open_port env a p s = Next t \<and> port t = None"
proof -
  let ?s1 = "emit (PortOpen p) (say (Conn (Connecting p)) s)"
  let ?s2 = "emit (Sleep 2) (say (Conn (Connected p)) (?s1\<lparr>ser := Some \<lparr>is_open = True\<rparr>\<rparr>))"
  from assms(2) have "open_port env a p s = connect_handler a p e ?s1 \<or>
                      open_port env a p s = connect_handler a p e ?s2"
    by (auto simp: open_port_def Let_def)
  with connect_handler_busy[OF assms(1), of a p ?s1] connect_handler_busy[OF assms(1), of a p ?s2]
  show ?thesis by auto
qed

lemma connect_attempt_selected:
  assumes "no_port s" and "filter (\<lambda>q. probe_raises env q = None) (candidates env) = p # ps"
  shows "\<exists>s4. connect_attempt env a s = open_port env a p s4 \<and> port s4 = Some p"
proof -
  from assms(2) have "candidates env \<noteq> []" by auto
  with assms(2) show ?thesis
    by (simp add: connect_attempt_no_port[OF assms(1)] Let_def)
       (rule exI, rule conjI, rule refl, simp)
qed

lemma connect_attempt_busy:
  assumes "is_busy e"
    and "open_raises env p = Some e \<or> (open_raises env p = None \<and> in_waiting env = Inl e)"
    and "(port s = Some p \<and> p \<noteq> []) \<or>
         (no_port s \<and> (\<exists>ps. filter (\<lambda>q. probe_raises env q = None) (candidates env) = p # ps))"
  shows "\<exists>t. connect_attempt env a s = Next t \<and> port t = None"
  using assms(3)
proof
  assume "port s = Some p \<and> p \<noteq> []"
  then show ?thesis
    using open_port_busy[OF assms(1,2), of a s] by (simp add: connect_attempt_pinned)
next
  assume "no_port s \<and> (\<exists>ps. filter (\<lambda>q. probe_raises env q = None) (candidates env) = p # ps)"
  then obtain ps where "no_port s" "filter (\<lambda>q. probe_raises env q = None) (candidates env) = p # ps"
    by blast
  from connect_attempt_selected[OF this, of a] obtain s4 where
    "connect_attempt env a s = open_port env a p s4" by blast
  with open_port_busy[OF assms(1,2), of a s4] show ?thesis by simp
qed

text \<open>
  C6.  \<^verbatim>\<open>connect\<close> runs its discover-and-connect cycle at most three times: it adds at
  most three scans of the ports and at most three openings of a port to the trace.  An
  attempt that is followed by another one ends with a pause of 2.  A busy failure on the
  endpoint clears the pin and the loop goes on, whether the endpoint was pinned before the
  attempt or selected by the attempt itself (the first candidate that passes the probe),
  and whether the failure is raised by opening the port or by the first look at its
  buffer; an attempt without a pin starts by scanning the ports.  When no port is pinned
  and, in each of the three attempts, candidates are found and the probe of every
  candidate fails, \<^verbatim>\<open>connect\<close> returns \<open>False\<close> after exactly three scans with a pause
  of 2 after the first and after the second.
\<close>

theorem connect_retries_three_times:
  "(\<exists>evs. timeline (snd (connect envs s)) = timeline s @ evs \<and>
          length (filter (\<lambda>e. e = PortScan) evs) \<le> 3 \<and>
          length (filter is_port_open evs) \<le> 3) \<and>
   (connect_attempt env a s = Next s' \<longrightarrow> a < max_retries - 1 \<longrightarrow> last (out s') = Sleep 2) \<and>
   (port s = Some p \<longrightarrow> p \<noteq> [] \<longrightarrow> open_raises env p = Some e \<longrightarrow> is_busy e \<longrightarrow>
      (\<exists>t. connect_attempt env a s = Next t \<and> port t = None)) \<and>
   (port s = Some p \<longrightarrow> p \<noteq> [] \<longrightarrow> open_raises env p = None \<longrightarrow> in_waiting env = Inl e \<longrightarrow>
    is_busy e \<longrightarrow>
      (\<exists>t. connect_attempt env a s = Next t \<and> port t = None)) \<and>
   (no_port s \<longrightarrow> filter (\<lambda>q. probe_raises env q = None) (candidates env) = p # ps \<longrightarrow>
    open_raises env p = Some e \<longrightarrow> is_busy e \<longrightarrow>
      (\<exists>t. connect_attempt env a s = Next t \<and> port t = None)) \<and>
   (no_port s \<longrightarrow> filter (\<lambda>q. probe_raises env q = None) (candidates env) = p # ps \<longrightarrow>
    open_raises env p = None \<longrightarrow> in_waiting env = Inl e \<longrightarrow> is_busy e \<longrightarrow>
      (\<exists>t. connect_attempt env a s = Next t \<and> port t = None)) \<and>
   (no_port s \<longrightarrow>
      (\<exists>rest. timeline (state_of (connect_attempt env a s)) = timeline s @ PortScan # rest)) \<and>
   (no_port s \<longrightarrow>
    (\<forall>a<max_retries. candidates (envs a) \<noteq> [] \<and>
         list_all (\<lambda>p. probe_raises (envs a) p \<noteq> None) (candidates (envs a))) \<longrightarrow>
      fst (connect envs s) = False \<and>
      timeline (snd (connect envs s)) = timeline s @ [PortScan, Sleep 2, PortScan, Sleep 2, PortScan])"
proof (intro conjI impI)
  from connect_for_effect[of envs "[0..<max_retries]" s]
  show "\<exists>evs. timeline (snd (connect envs s)) = timeline s @ evs \<and>
          length (filter (\<lambda>e. e = PortScan) evs) \<le> 3 \<and>
          length (filter is_port_open evs) \<le> 3"
    by (simp add: connect_def max_retries_def)
next
  assume "connect_attempt env a s = Next s'" "a < max_retries - 1"
  then show "last (out s') = Sleep 2" by (rule connect_attempt_effect(3))
next
  assume "port s = Some p" "p \<noteq> []" "open_raises env p = Some e" "is_busy e"
  then show "\<exists>t. connect_attempt env a s = Next t \<and> port t = None"
    using connect_attempt_busy[of e env p s a] by blast
next
  assume "port s = Some p" "p \<noteq> []" "open_raises env p = None" "in_waiting env = Inl e" "is_busy e"
  then show "\<exists>t. connect_attempt env a s = Next t \<and> port t = None"
    using connect_attempt_busy[of e env p s a] by blast
next
  assume "no_port s" "filter (\<lambda>q. probe_raises env q = None) (candidates env) = p # ps"
    "open_raises env p = Some e" "is_busy e"
  then show "\<exists>t. connect_attempt env a s = Next t \<and> port t = None"
    using connect_attempt_busy[of e env p s a] by blast
next
  assume "no_port s" "filter (\<lambda>q. probe_raises env q = None) (candidates env) = p # ps"
    "open_raises env p = None" "in_waiting env = Inl e" "is_busy e"
  then show "\<exists>t. connect_attempt env a s = Next t \<and> port t = None"
    using connect_attempt_busy[of e env p s a] by blast
next
  assume "no_port s"
  then show "\<exists>rest. timeline (state_of (connect_attempt env a s)) = timeline s @ PortScan # rest"
    by (rule connect_attempt_scans)
next
  assume a: "no_port s" "\<forall>a<max_retries. candidates (envs a) \<noteq> [] \<and>
         list_all (\<lambda>p. probe_raises (envs a) p \<noteq> None) (candidates (envs a))"
  from connect_all_fail[OF a]
  show "fst (connect envs s) = False"
    and "timeline (snd (connect envs s)) = timeline s @ [PortScan, Sleep 2, PortScan, Sleep 2, PortScan]"
    by simp_all
qed

text \<open>
  The one board is busy in all three attempts: \<^verbatim>\<open>connect\<close> fails after three scans and
  two pauses.  With the board's port pinned and busy, the first attempt clears the pin
  and ends with the pause.  With no pin, the board passing the probe and its port busy
  when opened, the attempt selects the port and clears the pin again.
\<close>

theorem connect_retries_three_times_witness:
  "no_port (new_monitor None None) \<and>
   candidates busy_env = [''/dev/cu.usbmodem14101'', ''/dev/tty.usbmodem14101''] \<and>
   fst (connect (\<lambda>a. busy_env) (new_monitor None None)) = False \<and>
   timeline (snd (connect (\<lambda>a. busy_env) (new_monitor None None))) =
     [PortScan, Sleep 2, PortScan, Sleep 2, PortScan] \<and>
   (\<exists>t. connect_attempt busy_env 0 (new_monitor (Some ''/dev/cu.usbmodem14101'') None) = Next t \<and>
        port t = None \<and> last (out t) = Sleep 2) \<and>
   filter (\<lambda>q. probe_raises open_busy_env q = None) (candidates open_busy_env) =
     ''/dev/cu.usbmodem14101'' # [''/dev/tty.usbmodem14101''] \<and>
   (\<exists>t. connect_attempt open_busy_env 0 (new_monitor None None) = Next t \<and>
        port t = None \<and> last (out t) = Sleep 2)"
proof -
  let ?s = "new_monitor None None"
  let ?pinned = "new_monitor (Some ''/dev/cu.usbmodem14101'') None"
  let ?busy = "SerialException ''[Errno 16] Resource busy''"
  let ?cu = "''/dev/cu.usbmodem14101''"
  have np: "no_port ?s" and tl: "timeline ?s = []"
    by (simp_all add: no_port_def new_monitor_def timeline_def)
  have "all_ports_to_try (comports busy_env) = [''/dev/cu.usbmodem14101'', ''/dev/tty.usbmodem14101'']"
    unfolding busy_env_def by code_simp
  then have c: "candidates busy_env = [''/dev/cu.usbmodem14101'', ''/dev/tty.usbmodem14101'']"
    by (simp add: candidates_def)
  have pr: "list_all (\<lambda>p. probe_raises busy_env p \<noteq> None) (candidates busy_env)"
    by (simp add: c) (simp add: busy_env_def)
  have pin: "port ?pinned = Some ?cu"
    by (simp add: new_monitor_def)
  have op: "open_raises busy_env ?cu = Some ?busy"
    by (simp add: busy_env_def)
  have b: "is_busy ?busy"
    by (simp add: is_busy_def)
  have two: "(0::nat) < max_retries - 1"
    by (simp add: max_retries_def)
  have "all_ports_to_try (comports open_busy_env) = [''/dev/cu.usbmodem14101'', ''/dev/tty.usbmodem14101'']"
    unfolding open_busy_env_def by code_simp
  then have c': "candidates open_busy_env = [''/dev/cu.usbmodem14101'', ''/dev/tty.usbmodem14101'']"
    by (simp add: candidates_def)
  have w: "filter (\<lambda>q. probe_raises open_busy_env q = None) (candidates open_busy_env) =
             ?cu # [''/dev/tty.usbmodem14101'']"
    by (simp add: c') (simp add: open_busy_env_def)
  have op': "open_raises open_busy_env ?cu = Some ?busy"
    by (simp add: open_busy_env_def)
  from connect_retries_three_times[where envs = "\<lambda>a. busy_env" and s = ?s and env = busy_env
         and a = 0 and s' = ?s and p = ?cu and e = ?busy and ps = "[]"] np c pr tl
  have d: "fst (connect (\<lambda>a. busy_env) ?s) = False"
    "timeline (snd (connect (\<lambda>a. busy_env) ?s)) = [PortScan, Sleep 2, PortScan, Sleep 2, PortScan]"
    by simp_all
  from connect_retries_three_times[where envs = "\<lambda>a. busy_env" and s = ?pinned and env = busy_env
         and a = 0 and s' = ?s and p = ?cu and e = ?busy and ps = "[]"] pin op b
  obtain t where t: "connect_attempt busy_env 0 ?pinned = Next t" "port t = None"
    by auto
  from connect_retries_three_times[where envs = "\<lambda>a. busy_env" and s = ?pinned and env = busy_env
         and a = 0 and s' = t and p = ?cu and e = ?busy and ps = "[]"] t(1) two
  have lt: "last (out t) = Sleep 2" by blast
  from connect_retries_three_times[where envs = "\<lambda>a. busy_env" and s = ?s and env = open_busy_env
         and a = 0 and s' = ?s and p = ?cu and e = ?busy and ps = "[''/dev/tty.usbmodem14101'']"]
       np w op' b
  obtain u where u: "connect_attempt open_busy_env 0 ?s = Next u" "port u = None"
    by blast
  from connect_retries_three_times[where envs = "\<lambda>a. busy_env" and s = ?s and env = open_busy_env
         and a = 0 and s' = u and p = ?cu and e = ?busy and ps = "[''/dev/tty.usbmodem14101'']"]
       u(1) two
  have lu: "last (out u) = Sleep 2" by blast
  from np c d t lt w u lu show ?thesis by blast
qed

section \<open>Properties of the supervised read loop\<close>

lemma disconnect_stops: "running (disconnect cr s) = False"
  by (simp add: disconnect_def Let_def split: option.splits)

lemma reconnect_stops: "running (snd (reconnect cr envs s)) = False"
  by (simp add: reconnect_def connect_running disconnect_stops)

lemma worker_pass_unhealthy:
  assumes "check_connection (health_waiting env) s = Inr (False, s1)"
    and "ra < max_reconnect_attempts"
  shows "\<not> running (fst (worker_pass env (s, ra)))"
  using assms
  by (simp add: worker_pass_def worker_try_def Let_def case_prod_beta reconnect_stops)

lemma serial_worker_unhealthy:
  assumes "running s" and "check_connection (health_waiting (envs k)) s = Inr (False, s1)"
    and "ra < max_reconnect_attempts"
  shows "serial_worker envs k (s, ra) =
           Some (fst (worker_pass (envs k) (s, ra)), snd (worker_pass (envs k) (s, ra)), Suc k)"
  using assms(1) worker_pass_unhealthy[OF assms(2,3)]
  by (subst serial_worker.simps, simp, subst serial_worker.simps, simp)

lemma open_port_ok:
  "open_raises env p = None \<Longrightarrow> in_waiting env = Inr n \<Longrightarrow>
     \<exists>t. open_port env a p s = Return True t"
  by (simp add: open_port_def Let_def)

lemma connect_pinned_ok:
  assumes "port s = Some p" "p \<noteq> []" "open_raises (envs 0) p = None" "in_waiting (envs 0) = Inr n"
  shows "fst (connect envs s) = True"
proof -
  from open_port_ok[OF assms(3,4), of 0 s] obtain t where "open_port (envs 0) 0 p s = Return True t"
    by blast
  then show ?thesis
    using assms(1,2) by (simp add: connect_def upt_max_retries connect_attempt_pinned)
qed

lemma disconnect_port: "port (disconnect cr s) = port s"
  by (simp add: disconnect_def Let_def split: option.splits)

lemma worker_pass_reconnected:
  assumes "check_connection (health_waiting env) s = Inr (False, s1)"
    and "connection_lost s1" and "ra < max_reconnect_attempts"
    and "fst (reconnect (close_raises env) (attempts env)
               (say (Worker (AttemptReconnect (ra + 1) max_reconnect_attempts)) s1))"
  shows "\<exists>t. worker_pass env (s, ra) = ((say (Worker Reconnected) t)\<lparr>connection_lost := False\<rparr>, 0)"
  using assms
  by (auto simp: worker_pass_def worker_try_def Let_def case_prod_beta)

text \<open>
  C8: what the code does.  Whenever the health check of a pass fails while reconnect
  attempts remain, that pass is the last one: \<^verbatim>\<open>reconnect\<close> calls \<^verbatim>\<open>disconnect\<close>, which
  clears the running flag, and \<^verbatim>\<open>connect\<close> never sets it, so the loop ends at its next
  check of the flag, whether the reconnect succeeded or not.
\<close>

theorem reconnect_ends_read_loop:
  assumes "running s" and "check_connection (health_waiting (envs k)) s = Inr (False, s1)"
    and "ra < max_reconnect_attempts"
  shows "\<exists>s' ra'. serial_worker envs k (s, ra) = Some (s', ra', Suc k) \<and> \<not> running s' \<and>
           worker_pass (envs k) (s, ra) = (s', ra')"
  using serial_worker_unhealthy[of s envs k s1 ra, OF assms]
        worker_pass_unhealthy[of "envs k" s s1 ra, OF assms(2,3)]
  by simp

text \<open>
  The device is unplugged during the first pass and the reconnect succeeds at once: the
  loop reports the reconnection and ends after that pass.
\<close>

theorem reconnect_ends_read_loop_witness:
  "\<exists>s'. monitor_serial (\<lambda>k. unplugged_tick) connected_monitor = Some (s', 0, 1) \<and>
        \<not> running s' \<and> last (out s') = Print (Worker Reconnected)"
proof -
  let ?s = "connected_monitor\<lparr>running := True\<rparr>"
  let ?s1 = "?s\<lparr>connection_lost := True\<rparr>"
  let ?s3 = "say (Worker (AttemptReconnect (0 + 1) max_reconnect_attempts)) ?s1"
  let ?d = "emit (Sleep 2) (disconnect False (say (Conn LostReconnecting) ?s3))"
  have r: "running ?s" by simp
  have c: "check_connection (health_waiting unplugged_tick) ?s = Inr (False, ?s1)"
    by (simp add: check_connection_def unplugged_tick_def connected_monitor_def new_monitor_def)
  have l: "connection_lost ?s1" by simp
  have m: "(0::nat) < max_reconnect_attempts" by (simp add: max_reconnect_attempts_def)
  have pd: "port ?d = Some ''/dev/cu.usbmodem14101''"
    by (simp add: disconnect_port) (simp add: connected_monitor_def new_monitor_def)
  have "fst (connect (\<lambda>a. free_env) ?d)"
    using connect_pinned_ok[of ?d "''/dev/cu.usbmodem14101''" "\<lambda>a. free_env" 0, OF pd]
    by (simp add: free_env_def)
  then have rc: "fst (reconnect (close_raises unplugged_tick) (attempts unplugged_tick) ?s3)"
    by (simp add: reconnect_def unplugged_tick_def)
  from worker_pass_reconnected[of unplugged_tick ?s ?s1 0, OF c l m rc] obtain t where
    t: "worker_pass unplugged_tick (?s, 0) = ((say (Worker Reconnected) t)\<lparr>connection_lost := False\<rparr>, 0)"
    by blast
  from reconnect_ends_read_loop[of ?s "\<lambda>k. unplugged_tick" 0 ?s1 0, OF r c m] t
  show ?thesis
    by (auto simp: monitor_serial_def)
qed

end
